theory Spec2Isabelle
  imports
    Main
    "HOL-Library.Char_ord"
    "HOL-Library.List_Lexorder"
    "HOL-Library.Product_Lexorder"
    "HOL-Library.Extended_Nat"
    "HOL-Library.Multiset"
begin

chapter \<open>The chat-archive viewer: transcript parser, storage engine, store service\<close>

text \<open>
  The development follows \<^verbatim>\<open>src/lib/parser.ts\<close> (class \<^verbatim>\<open>WhatsAppParser\<close>),
  \<^verbatim>\<open>src/lib/database.ts\<close> (class \<^verbatim>\<open>DatabaseService\<close>, schema version 2) and
  \<^verbatim>\<open>src/lib/stores.ts\<close> (class \<^verbatim>\<open>StoreService\<close>).

  A JavaScript string is a sequence of UTF-16 code units, and every operation on strings
  that the code uses works code unit by code unit: regular expressions without the
  \<^verbatim>\<open>u\<close> flag, \<^verbatim>\<open>trim\<close>, \<^verbatim>\<open>split\<close>, \<^verbatim>\<open>parseInt\<close>, concatenation, and the comparison of
  IndexedDB keys.
\<close>

section \<open>Strings\<close>

text \<open>
  A code unit is a 16-bit number, modelled by its two bytes, the high one first: the pair
  \<open>(CHR 0x20, CHR 0x28)\<close> is the code unit \<open>0x2028\<close>. The order of the pairs is the numeric
  order of the code units, and the order of the lists is the order of strings as
  IndexedDB keys. \<open>cu c\<close> is the code unit of the character \<open>c\<close> of the range \<open>0x00\<close> to
  \<open>0xFF\<close>, and \<open>js s\<close> the JavaScript string spelt by the literal \<open>s\<close>.
\<close>

type_synonym code_unit = "char \<times> char"

type_synonym jsstring = "code_unit list"

definition cu :: "char \<Rightarrow> code_unit" where
  "cu c = (CHR 0x00, c)"

definition js :: "string \<Rightarrow> jsstring" where
  "js s = map cu s"

text \<open>
  The line terminators of ECMAScript: LF, CR, LINE SEPARATOR (\<open>0x2028\<close>) and PARAGRAPH
  SEPARATOR (\<open>0x2029\<close>). They are what \<^verbatim>\<open>.\<close> never matches.
\<close>

definition is_line_terminator :: "code_unit \<Rightarrow> bool" where
  "is_line_terminator c \<longleftrightarrow>
     c \<in> set [(CHR 0x00, CHR 0x0A), (CHR 0x00, CHR 0x0D), (CHR 0x20, CHR 0x28), (CHR 0x20, CHR 0x29)]"

text \<open>
  \<^verbatim>\<open>WhiteSpace\<close> of ECMAScript: TAB, VT, FF, the byte order mark \<open>0xFEFF\<close> and the space
  separators of Unicode, which are SPACE, NO-BREAK SPACE, \<open>0x1680\<close>, \<open>0x2000\<close> to \<open>0x200A\<close>,
  \<open>0x202F\<close>, \<open>0x205F\<close> and \<open>0x3000\<close>.
\<close>

definition is_white_space :: "code_unit \<Rightarrow> bool" where
  "is_white_space c \<longleftrightarrow>
     c \<in> set [(CHR 0x00, CHR 0x09), (CHR 0x00, CHR 0x0B), (CHR 0x00, CHR 0x0C),
              (CHR 0x00, CHR 0x20), (CHR 0x00, CHR 0xA0), (CHR 0x16, CHR 0x80),
              (CHR 0x20, CHR 0x00), (CHR 0x20, CHR 0x01), (CHR 0x20, CHR 0x02),
              (CHR 0x20, CHR 0x03), (CHR 0x20, CHR 0x04), (CHR 0x20, CHR 0x05),
              (CHR 0x20, CHR 0x06), (CHR 0x20, CHR 0x07), (CHR 0x20, CHR 0x08),
              (CHR 0x20, CHR 0x09), (CHR 0x20, CHR 0x0A), (CHR 0x20, CHR 0x2F),
              (CHR 0x20, CHR 0x5F), (CHR 0x30, CHR 0x00), (CHR 0xFE, CHR 0xFF)]"

text \<open>
  What \<^verbatim>\<open>String.prototype.trim\<close> strips, what \<^verbatim>\<open>parseInt\<close> skips and what the class \<^verbatim>\<open>\s\<close> of a
  regular expression matches: white space and line terminators.
\<close>

definition is_space :: "code_unit \<Rightarrow> bool" where
  "is_space c \<longleftrightarrow> is_white_space c \<or> is_line_terminator c"

definition is_digit :: "code_unit \<Rightarrow> bool" where
  "is_digit c \<longleftrightarrow> c \<in> set (js ''0123456789'')"

text \<open>The value of a decimal digit, which lies in the low byte.\<close>

definition digit_val :: "code_unit \<Rightarrow> nat" where
  "digit_val c = of_char (snd c) - 48"

definition trim :: "jsstring \<Rightarrow> jsstring" where
  "trim s = rev (dropWhile is_space (rev (dropWhile is_space s)))"

text \<open>\<^verbatim>\<open>s.split(sep)\<close> for a one-character separator: always at least one piece.\<close>

fun split_on :: "code_unit \<Rightarrow> jsstring \<Rightarrow> jsstring list" where
  "split_on sep [] = [[]]"
| "split_on sep (c # cs) =
     (if c = sep then [] # split_on sep cs
      else (case split_on sep cs of
              [] \<Rightarrow> [[c]]
            | l # ls \<Rightarrow> (c # l) # ls))"

text \<open>
  Case folding of the \<^verbatim>\<open>i\<close> flag (\<^verbatim>\<open>Canonicalize\<close>). Every literal of the patterns below is
  ASCII, and a non-ASCII code unit never canonicalises to an ASCII one, so folding the
  ASCII letters decides the same matches.
\<close>

definition toUpperCase_char :: "code_unit \<Rightarrow> code_unit" where
  "toUpperCase_char c =
     (case map_of (zip (js ''abcdefghijklmnopqrstuvwxyz'') (js ''ABCDEFGHIJKLMNOPQRSTUVWXYZ'')) c of
        Some u \<Rightarrow> u
      | None \<Rightarrow> c)"

definition canonicalize :: "bool \<Rightarrow> code_unit \<Rightarrow> code_unit" where
  "canonicalize ignoreCase c = (if ignoreCase then toUpperCase_char c else c)"

text \<open>Decimal rendering of a non-negative integer, as a template literal renders it.\<close>

definition digit_char :: "nat \<Rightarrow> code_unit" where
  "digit_char d = js ''0123456789'' ! d"

function string_of_nat :: "nat \<Rightarrow> jsstring" where
  "string_of_nat n =
     (if n < 10 then [digit_char n] else string_of_nat (n div 10) @ [digit_char (n mod 10)])"
  by pat_completeness auto
termination
  by (relation "measure (\<lambda>n. n)") auto

declare string_of_nat.simps [simp del]

section \<open>Regular expressions\<close>

text \<open>
  The fragment of ECMAScript patterns that the code uses: character classes, quantified
  classes (greedy or lazy), the assertions \<^verbatim>\<open>^\<close> and \<^verbatim>\<open>$\<close> (no \<^verbatim>\<open>m\<close> flag), concatenation,
  alternation and numbered capture groups.
\<close>

datatype cls =
    Digit
  | Space
  | Dot
  | Lit code_unit
  | OneOf "code_unit list"
  | NoneOf "code_unit list"

datatype regex =
    Atom cls
  | Rep cls nat "nat option" bool
  | Bol
  | Eol
  | Eps
  | Cat regex regex
  | Alt regex regex
  | Group nat regex

fun cls_match :: "bool \<Rightarrow> cls \<Rightarrow> code_unit \<Rightarrow> bool" where
  "cls_match ic Digit c = is_digit c"
| "cls_match ic Space c = is_space c"
| "cls_match ic Dot c = (\<not> is_line_terminator c)"
| "cls_match ic (Lit a) c = (canonicalize ic c = canonicalize ic a)"
| "cls_match ic (OneOf as) c = (canonicalize ic c \<in> set (map (canonicalize ic) as))"
| "cls_match ic (NoneOf as) c = (canonicalize ic c \<notin> set (map (canonicalize ic) as))"

text \<open>
  The repetition counts a quantified class tries, in the order the backtracking matcher
  tries them: \<open>avail\<close> is the length of the longest run of matching characters at the
  current position; a greedy quantifier starts from the most repetitions, a lazy one from
  the fewest.
\<close>

definition rep_counts :: "nat \<Rightarrow> nat option \<Rightarrow> bool \<Rightarrow> nat \<Rightarrow> nat list" where
  "rep_counts lo hi greedy avail =
     (let ub = (case hi of None \<Rightarrow> avail | Some h \<Rightarrow> min h avail)
      in if greedy then rev [lo..<Suc ub] else [lo..<Suc ub])"

text \<open>
  A matcher state is the index reached, the input left from there, and the captures so
  far. \<open>rm\<close> lists the states in which a pattern can end, in backtracking priority: the
  match the engine reports is the first one whose continuation succeeds.
\<close>

type_synonym captures = "nat \<rightharpoonup> jsstring"
type_synonym mstate = "nat \<times> jsstring \<times> captures"

fun rm :: "bool \<Rightarrow> regex \<Rightarrow> mstate \<Rightarrow> mstate list" where
  "rm ic (Atom c) (e, s, k) =
     (case s of [] \<Rightarrow> [] | x # xs \<Rightarrow> if cls_match ic c x then [(Suc e, xs, k)] else [])"
| "rm ic (Rep c lo hi greedy) (e, s, k) =
     map (\<lambda>n. (e + n, drop n s, k))
       (rep_counts lo hi greedy (length (takeWhile (cls_match ic c) s)))"
| "rm ic Bol (e, s, k) = (if e = 0 then [(e, s, k)] else [])"
| "rm ic Eol (e, s, k) = (if s = [] then [(e, s, k)] else [])"
| "rm ic Eps st = [st]"
| "rm ic (Cat a b) st = concat (map (rm ic b) (rm ic a st))"
| "rm ic (Alt a b) st = rm ic a st @ rm ic b st"
| "rm ic (Group n r) (e, s, k) =
     map (\<lambda>(e', s', k'). (e', s', k'(n \<mapsto> take (e' - e) s))) (rm ic r (e, s, k))"

definition Seq :: "regex list \<Rightarrow> regex" where
  "Seq rs = foldr Cat rs Eps"

definition Str :: "jsstring \<Rightarrow> regex" where
  "Str s = Seq (map (\<lambda>c. Atom (Lit c)) s)"

text \<open>
  \<^verbatim>\<open>RegExp.prototype.exec\<close> without the \<^verbatim>\<open>g\<close> and \<^verbatim>\<open>y\<close> flags: the start indices \<open>0\<close> to
  \<open>length s\<close> are tried in turn. The result maps \<open>0\<close> to the matched text and \<open>n\<close> to the
  text of group \<open>n\<close> (\<open>None\<close> for \<^verbatim>\<open>undefined\<close>), as the match array does.
\<close>

definition match_at :: "bool \<Rightarrow> regex \<Rightarrow> jsstring \<Rightarrow> nat \<Rightarrow> captures option" where
  "match_at ic r s i =
     (case rm ic r (i, drop i s, Map.empty) of
        [] \<Rightarrow> None
      | (e, _, k) # _ \<Rightarrow> Some (k(0 \<mapsto> take (e - i) (drop i s))))"

definition regex_exec :: "bool \<Rightarrow> regex \<Rightarrow> jsstring \<Rightarrow> captures option" where
  "regex_exec ic r s =
     (case List.find (\<lambda>i. match_at ic r s i \<noteq> None) [0..<Suc (length s)] of
        None \<Rightarrow> None
      | Some i \<Rightarrow> match_at ic r s i)"

definition regex_test :: "bool \<Rightarrow> regex \<Rightarrow> jsstring \<Rightarrow> bool" where
  "regex_test ic r s \<longleftrightarrow> regex_exec ic r s \<noteq> None"

section \<open>The parser\<close>

text \<open>
  \<^verbatim>\<open>/^(\d{1,2}\/\d{1,2}\/\d{2,4}),\s(\d{1,2}:\d{2})\s-\s(.+?):\s(.*)$/\<close> and
  \<^verbatim>\<open>/^(\d{1,2}\/\d{1,2}\/\d{2,4}),\s(\d{1,2}:\d{2})\s-\s(.*)$/\<close>
\<close>

definition DATE_PART :: regex where
  "DATE_PART =
     Seq [Rep Digit 1 (Some 2) True, Atom (Lit (cu CHR ''/'')), Rep Digit 1 (Some 2) True,
          Atom (Lit (cu CHR ''/'')), Rep Digit 2 (Some 4) True]"

definition TIME_PART :: regex where
  "TIME_PART = Seq [Rep Digit 1 (Some 2) True, Atom (Lit (cu CHR '':'')), Rep Digit 2 (Some 2) True]"

definition MESSAGE_REGEX :: regex where
  "MESSAGE_REGEX =
     Seq [Bol, Group 1 DATE_PART, Atom (Lit (cu CHR '','')), Atom Space, Group 2 TIME_PART,
          Atom Space, Atom (Lit (cu CHR ''-'')), Atom Space,
          Group 3 (Rep Dot 1 None False), Atom (Lit (cu CHR '':'')), Atom Space,
          Group 4 (Rep Dot 0 None True), Eol]"

definition SYSTEM_MESSAGE_REGEX :: regex where
  "SYSTEM_MESSAGE_REGEX =
     Seq [Bol, Group 1 DATE_PART, Atom (Lit (cu CHR '','')), Atom Space, Group 2 TIME_PART,
          Atom Space, Atom (Lit (cu CHR ''-'')), Atom Space,
          Group 3 (Rep Dot 0 None True), Eol]"


text \<open>
  A number as the parser computes with it: \<open>None\<close> stands for \<^verbatim>\<open>NaN\<close> (and for an
  \<^verbatim>\<open>undefined\<close> array element, which every numeric use below turns into \<^verbatim>\<open>NaN\<close>).
\<close>

type_synonym num = "int option"

definition num_lt :: "num \<Rightarrow> num \<Rightarrow> bool" where
  "num_lt a b = (case (a, b) of (Some x, Some y) \<Rightarrow> x < y | _ \<Rightarrow> False)"

definition num_add :: "num \<Rightarrow> num \<Rightarrow> num" where
  "num_add a b = (case (a, b) of (Some x, Some y) \<Rightarrow> Some (x + y) | _ \<Rightarrow> None)"

definition num_sub :: "num \<Rightarrow> num \<Rightarrow> num" where
  "num_sub a b = (case (a, b) of (Some x, Some y) \<Rightarrow> Some (x - y) | _ \<Rightarrow> None)"

text \<open>
  \<^verbatim>\<open>parseInt(s, 10)\<close>: leading white space, an optional sign, then the longest run of
  decimal digits; \<^verbatim>\<open>NaN\<close> when there is none. (The parser applies it to at most four digits,
  far below the range where a double stops being exact.)
\<close>

definition parseInt10 :: "jsstring \<Rightarrow> num" where
  "parseInt10 s =
     (let t = dropWhile is_space s;
          signed = (case t of [] \<Rightarrow> False | c # _ \<Rightarrow> c = cu CHR ''-'' \<or> c = cu CHR ''+'');
          negative = (case t of [] \<Rightarrow> False | c # _ \<Rightarrow> c = cu CHR ''-'');
          ds = takeWhile is_digit (if signed then tl t else t);
          v = int (foldl (\<lambda>a d. 10 * a + digit_val d) 0 ds)
      in if ds = [] then None else Some (if negative then - v else v))"

definition nth_num :: "num list \<Rightarrow> nat \<Rightarrow> num" where
  "nth_num xs i = (if i < length xs then xs ! i else None)"

text \<open>
  A \<^verbatim>\<open>Date\<close>. \<open>DateLocal y m d h min\<close> is \<^verbatim>\<open>new Date(y, m, d, h, min)\<close>, kept as its arguments:
  the instant it denotes depends on the time zone of the host and on the calendar
  normalisation of out-of-range fields, neither of which is modelled.
  \<open>DateAt t\<close> is the Date of time value \<open>t\<close> (milliseconds since the epoch), as
  \<^verbatim>\<open>new Date()\<close> returns it for the clock reading \<open>t\<close>.
\<close>

datatype Date =
    DateLocal num num num num num
  | DateAt int

datatype js_error =
    TypeError
  | Error jsstring

record 't ParsedMessage =
  timestamp :: 't
  sender :: jsstring
  content :: jsstring

record ChatMetadata =
  md_name :: "jsstring option"
  md_participants :: "jsstring list"
  md_messageCount :: nat
  md_dateRange :: "Date \<times> Date"

text \<open>
  \<^verbatim>\<open>parseDateTime(dateStr, timeStr)\<close>. The arguments are elements of a match array, so they
  may be \<^verbatim>\<open>undefined\<close> (\<open>None\<close>), on which \<^verbatim>\<open>.split\<close> throws a TypeError.
\<close>

definition parseDateTime :: "jsstring option \<Rightarrow> jsstring option \<Rightarrow> js_error + Date" where
  "parseDateTime dateStr timeStr =
     (case dateStr of
        None \<Rightarrow> Inl TypeError
      | Some d \<Rightarrow>
          (case timeStr of
             None \<Rightarrow> Inl TypeError
           | Some t \<Rightarrow>
               (let mdy = map parseInt10 (split_on (cu CHR ''/'') d);
                    month = nth_num mdy 0; day = nth_num mdy 1; year = nth_num mdy 2;
                    hm = map parseInt10 (split_on (cu CHR '':'') t);
                    hours = nth_num hm 0; minutes = nth_num hm 1;
                    fullYear =
                      (if num_lt year (Some 100)
                       then (if num_lt (Some 50) year then num_add (Some 1900) year
                             else num_add (Some 2000) year)
                       else year)
                in Inr (DateLocal fullYear (num_sub month (Some 1)) day hours minutes))))"

text \<open>\<^verbatim>\<open>sender.replace(/^~\s/, '')\<close>: a leading tilde followed by one white-space character goes.\<close>

definition strip_tilde :: "jsstring \<Rightarrow> jsstring" where
  "strip_tilde s =
     (case s of
        c # d # rest \<Rightarrow> if c = cu CHR ''~'' \<and> is_space d then rest else s
      | _ \<Rightarrow> s)"

text \<open>\<^verbatim>\<open>Set.prototype.add\<close>: a \<^verbatim>\<open>Set\<close> keeps its elements in insertion order, each once.\<close>

definition set_add :: "'a \<Rightarrow> 'a list \<Rightarrow> 'a list" where
  "set_add x xs = (if x \<in> set xs then xs else xs @ [x])"

text \<open>The variables of the loop of \<^verbatim>\<open>parse\<close>.\<close>

record pstate =
  messages :: "Date ParsedMessage list"
  participantSet :: "jsstring list"
  currentMessage :: "Date ParsedMessage option"

definition initial_pstate :: pstate where
  "initial_pstate = \<lparr>messages = [], participantSet = [], currentMessage = None\<rparr>"

definition push_current :: "pstate \<Rightarrow> Date ParsedMessage list" where
  "push_current st =
     (case currentMessage st of None \<Rightarrow> messages st | Some m \<Rightarrow> messages st @ [m])"

text \<open>One iteration of the loop over the lines.\<close>

definition parse_line :: "jsstring \<Rightarrow> pstate \<Rightarrow> js_error + pstate" where
  "parse_line line st =
     (let messageMatch = regex_exec False MESSAGE_REGEX line;
          systemMatch = regex_exec False SYSTEM_MESSAGE_REGEX line
      in case messageMatch of
           Some k \<Rightarrow>
             (case parseDateTime (k 1) (k 2) of
                Inl e \<Rightarrow> Inl e
              | Inr ts \<Rightarrow>
                  (case k 3 of
                     None \<Rightarrow> Inl TypeError
                   | Some senderText \<Rightarrow>
                       (let cleanSender = trim (strip_tilde senderText)
                        in case k 4 of
                             None \<Rightarrow> Inl TypeError
                           | Some contentText \<Rightarrow>
                               Inr \<lparr>messages = push_current st,
                                    participantSet = set_add cleanSender (participantSet st),
                                    currentMessage =
                                      Some \<lparr>timestamp = ts, sender = cleanSender,
                                            content = trim contentText\<rparr>\<rparr>)))
         | None \<Rightarrow>
             (case systemMatch of
                Some k \<Rightarrow>
                  (case parseDateTime (k 1) (k 2) of
                     Inl e \<Rightarrow> Inl e
                   | Inr ts \<Rightarrow>
                       (case k 3 of
                          None \<Rightarrow> Inl TypeError
                        | Some contentText \<Rightarrow>
                            Inr \<lparr>messages =
                                   push_current st
                                   @ [\<lparr>timestamp = ts, sender = js ''System'',
                                       content = trim contentText\<rparr>],
                                 participantSet = participantSet st,
                                 currentMessage = None\<rparr>))
              | None \<Rightarrow>
                  (case currentMessage st of
                     Some m \<Rightarrow>
                       if trim line \<noteq> []
                       then Inr (st\<lparr>currentMessage :=
                                      Some (m\<lparr>content := content m @ js ''\<newline>'' @ trim line\<rparr>)\<rparr>)
                       else Inr st
                   | None \<Rightarrow> Inr st)))"

fun parse_loop :: "jsstring list \<Rightarrow> pstate \<Rightarrow> js_error + pstate" where
  "parse_loop [] st = Inr st"
| "parse_loop (line # lines) st =
     (case parse_line line st of
        Inl e \<Rightarrow> Inl e
      | Inr st' \<Rightarrow> parse_loop lines st')"

text \<open>\<^verbatim>\<open>xs.join(sep)\<close>\<close>

fun join :: "jsstring \<Rightarrow> jsstring list \<Rightarrow> jsstring" where
  "join sep [] = []"
| "join sep [x] = x"
| "join sep (x # y # ys) = x @ sep @ join sep (y # ys)"

text \<open>\<^verbatim>\<open>/added|created|changed.*subject|group/i\<close> and \<^verbatim>\<open>/subject.*?["']([^"']+)["']/i\<close>\<close>

definition groupNamePattern :: regex where
  "groupNamePattern =
     Alt (Str (js ''added''))
       (Alt (Str (js ''created''))
          (Alt (Seq [Str (js ''changed''), Rep Dot 0 None True, Str (js ''subject'')])
             (Str (js ''group''))))"

definition subjectPattern :: regex where
  "subjectPattern =
     Seq [Str (js ''subject''), Rep Dot 0 None False, Atom (OneOf [cu CHR 0x22, cu CHR 0x27]),
          Group 1 (Rep (NoneOf [cu CHR 0x22, cu CHR 0x27]) 1 None True),
          Atom (OneOf [cu CHR 0x22, cu CHR 0x27])]"

text \<open>
  The loop of \<^verbatim>\<open>generateChatName\<close> over the first messages: the first message whose content
  passes the group-activity test and holds a quoted subject decides. The outer \<open>None\<close> says
  that the loop ended without returning; the inner option is element \<open>1\<close> of the match array.
\<close>

fun find_subject :: "'t ParsedMessage list \<Rightarrow> jsstring option option" where
  "find_subject [] = None"
| "find_subject (m # ms) =
     (if regex_test True groupNamePattern (content m)
      then (case regex_exec True subjectPattern (content m) of
              Some k \<Rightarrow> Some (k 1)
            | None \<Rightarrow> find_subject ms)
      else find_subject ms)"

definition generateChatName :: "jsstring list \<Rightarrow> 't ParsedMessage list \<Rightarrow> jsstring option" where
  "generateChatName participants msgs =
     (if length participants = 0 then Some (js ''Unknown Chat'')
      else if length participants = 1 then Some (participants ! 0 @ js '' (Self Chat)'')
      else if length participants = 2 then Some (join (js '' & '') participants)
      else (case find_subject (take 10 msgs) of
              Some subject \<Rightarrow> subject
            | None \<Rightarrow>
                if length participants \<le> 4 then Some (join (js '', '') participants)
                else Some (join (js '', '') (take 3 participants) @ js '' and ''
                           @ string_of_nat (length participants - 3) @ js '' others'')))"

definition nonblank_lines :: "jsstring \<Rightarrow> jsstring list" where
  "nonblank_lines text = filter (\<lambda>line. trim line \<noteq> []) (split_on (cu CHR ''\<newline>'') text)"

text \<open>
  \<^verbatim>\<open>WhatsAppParser.parse(chatContent)\<close>; \<open>nowStart\<close> and \<open>nowEnd\<close> are the clock readings of
  the two \<^verbatim>\<open>new Date()\<close> of the date range.
\<close>

definition parse ::
  "int \<Rightarrow> int \<Rightarrow> jsstring \<Rightarrow> js_error + (Date ParsedMessage list \<times> ChatMetadata)" where
  "parse nowStart nowEnd chatContent =
     (case parse_loop (nonblank_lines chatContent) initial_pstate of
        Inl e \<Rightarrow> Inl e
      | Inr st \<Rightarrow>
          (let msgs = push_current st;
               participants = filter (\<lambda>p. p \<noteq> js ''System'') (participantSet st);
               chatName = generateChatName participants msgs
           in Inr (msgs,
                   \<lparr>md_name = chatName,
                    md_participants = participants,
                    md_messageCount = length msgs,
                    md_dateRange =
                      (if length msgs > 0 then timestamp (msgs ! 0) else DateAt nowStart,
                       if length msgs > 0 then timestamp (msgs ! (length msgs - 1))
                       else DateAt nowEnd)\<rparr>)))"


subsection \<open>Validation\<close>

text \<open>
  The entries of the \<^verbatim>\<open>errors\<close> array, in the order of their texts in the source.
  \<open>OnlyPercentMatch v t\<close> stands for the text that shows \<^verbatim>\<open>Math.round(validRatio * 100)\<close>
  for \<open>v\<close> matching lines out of \<open>t\<close>; the rounding is floating point and not modelled.
\<close>

datatype validation_error =
    ContentEmpty
  | NoValidLines
  | NotAChatExport
  | OnlyPercentMatch nat nat
  | NoValidMessageFormat
  | ExpectedFormatHint

text \<open>
  \<^verbatim>\<open>validRatio < 0.3\<close> for \<^verbatim>\<open>validRatio = validMessageCount / totalNonEmptyLines\<close>. The loop
  samples at most 50 lines, so the exact quotient is either \<open>3/10\<close>, which the division and
  the literal round to the same double, or at least \<open>1/500\<close> away from it: the comparison
  of doubles decides as the comparison of rationals. A total of \<open>0\<close> would give \<^verbatim>\<open>NaN\<close>, which
  is not below anything.
\<close>

definition ratio_below_threshold :: "nat \<Rightarrow> nat \<Rightarrow> bool" where
  "ratio_below_threshold validMessageCount totalNonEmptyLines \<longleftrightarrow>
     totalNonEmptyLines \<noteq> 0 \<and>
     (of_nat validMessageCount / of_nat totalNonEmptyLines :: rat) < 3 / 10"

definition validate_count :: "jsstring \<Rightarrow> nat \<times> nat \<Rightarrow> nat \<times> nat" where
  "validate_count line acc =
     (case acc of
        (validMessageCount, totalNonEmptyLines) \<Rightarrow>
          if trim line \<noteq> []
          then (if regex_test False MESSAGE_REGEX line \<or>
                   regex_test False SYSTEM_MESSAGE_REGEX line
                then Suc validMessageCount else validMessageCount,
                Suc totalNonEmptyLines)
          else (validMessageCount, totalNonEmptyLines))"

definition validate :: "jsstring \<Rightarrow> bool \<times> validation_error list" where
  "validate text =
     (if text = [] \<or> length (trim text) = 0 then (False, [ContentEmpty])
      else
        (let lines = nonblank_lines text
         in if length lines = 0 then (False, [NoValidLines])
            else
              (case fold validate_count (take (min 50 (length lines)) lines) (0, 0) of
                 (validMessageCount, totalNonEmptyLines) \<Rightarrow>
                   (let errors1 =
                          (if ratio_below_threshold validMessageCount totalNonEmptyLines
                           then [NotAChatExport,
                                 OnlyPercentMatch validMessageCount totalNonEmptyLines]
                           else []);
                        errors2 =
                          (if validMessageCount = 0
                           then [NoValidMessageFormat, ExpectedFormatHint]
                           else [])
                    in (length (errors1 @ errors2) = 0, errors1 @ errors2)))))"

section \<open>The storage engine\<close>

text \<open>
  The records of the three object stores. \<open>'t\<close> is the representation of a \<^verbatim>\<open>Date\<close>.
  The key path of every store is the field \<^verbatim>\<open>id\<close>, here \<open>chat_id\<close>, \<open>msg_id\<close> and \<open>bm_id\<close>.
\<close>

record 't Chat =
  chat_id :: jsstring
  name :: jsstring
  participants :: "jsstring list"
  createdAt :: 't
  lastMessageAt :: 't
  messageCount :: nat
  rawContent :: jsstring

record 't Message = "'t ParsedMessage" +
  msg_id :: jsstring
  chatId :: jsstring
  messageIndex :: nat

record 't Bookmark =
  bm_id :: jsstring
  messageId :: jsstring
  bm_chatId :: jsstring
  bm_createdAt :: 't
  bm_note :: "jsstring option"

text \<open>
  An object store holds one record per primary key, in ascending key order; strings
  compare code unit by code unit, a proper prefix first. \<^verbatim>\<open>put\<close> replaces the record of
  the same key or inserts the new one at its place.
\<close>

definition store_put :: "('v \<Rightarrow> jsstring) \<Rightarrow> 'v \<Rightarrow> 'v list \<Rightarrow> 'v list" where
  "store_put key v s = insort_key key v (filter (\<lambda>x. key x \<noteq> key v) s)"

definition store_delete :: "('v \<Rightarrow> jsstring) \<Rightarrow> jsstring \<Rightarrow> 'v list \<Rightarrow> 'v list" where
  "store_delete key k s = filter (\<lambda>x. key x \<noteq> k) s"

definition store_get :: "('v \<Rightarrow> jsstring) \<Rightarrow> jsstring \<Rightarrow> 'v list \<Rightarrow> 'v option" where
  "store_get key k s = List.find (\<lambda>x. key x = k) s"

text \<open>
  The records an index lists for a key range: ordered by index key, and by primary key
  (the order of the store) among equal index keys.
\<close>

definition index_getAll :: "('v \<Rightarrow> 'k::linorder) \<Rightarrow> ('k \<Rightarrow> bool) \<Rightarrow> 'v list \<Rightarrow> 'v list" where
  "index_getAll ikey inrange s = sort_key ikey (filter (\<lambda>v. inrange (ikey v)) s)"

record 't db =
  chats_os :: "'t Chat list"
  messages_os :: "'t Message list"
  bookmarks_os :: "'t Bookmark list"

definition empty_db :: "'t db" where
  "empty_db = \<lparr>chats_os = [], messages_os = [], bookmarks_os = []\<rparr>"

text \<open>The record that \<^verbatim>\<open>storeChat\<close> puts for \<^verbatim>\<open>messages[i]\<close>.\<close>

definition message_record :: "jsstring \<Rightarrow> nat \<Rightarrow> 't ParsedMessage \<Rightarrow> 't Message" where
  "message_record cid i message =
     \<lparr>timestamp = timestamp message, sender = sender message, content = content message,
      msg_id = cid @ js ''-'' @ string_of_nat i, chatId = cid, messageIndex = i\<rparr>"

text \<open>The loop \<^verbatim>\<open>for (let i = 0; i < messages.length; i++)\<close> of \<^verbatim>\<open>storeChat\<close>, from \<open>i\<close> on.\<close>

function storeChat_loop ::
  "jsstring \<Rightarrow> 't ParsedMessage list \<Rightarrow> nat \<Rightarrow> 't Message list \<Rightarrow> 't Message list" where
  "storeChat_loop cid msgs i messageStore =
     (if i < length msgs
      then storeChat_loop cid msgs (Suc i)
             (store_put msg_id (message_record cid i (msgs ! i)) messageStore)
      else messageStore)"
  by pat_completeness auto
termination
  by (relation "measure (\<lambda>(cid, msgs, i, messageStore). length msgs - i)") auto

declare storeChat_loop.simps [simp del]

text \<open>
  \<^verbatim>\<open>storeChat(id, name, participants, messages, rawContent)\<close>, one transaction over the chats
  and messages stores. \<open>nowCreated\<close> and \<open>nowLast\<close> are the two readings \<^verbatim>\<open>new Date()\<close> of
  the clock. The model is the committed transaction: a failure to open the database or
  to write aborts it and leaves the stores as they were.
\<close>

definition storeChat ::
  "'t \<Rightarrow> 't \<Rightarrow> jsstring \<Rightarrow> jsstring \<Rightarrow> jsstring list \<Rightarrow> 't ParsedMessage list \<Rightarrow> jsstring \<Rightarrow> 't db \<Rightarrow> 't db" where
  "storeChat nowCreated nowLast cid chatName parts msgs raw d =
     (let chat =
            \<lparr>chat_id = cid, name = chatName, participants = parts, createdAt = nowCreated,
             lastMessageAt =
               (if length msgs > 0 then timestamp (msgs ! (length msgs - 1)) else nowLast),
             messageCount = length msgs, rawContent = raw\<rparr>
      in d\<lparr>chats_os := store_put chat_id chat (chats_os d),
            messages_os := storeChat_loop cid msgs 0 (messages_os d)\<rparr>)"

definition getChat :: "jsstring \<Rightarrow> 't db \<Rightarrow> 't Chat option" where
  "getChat cid d = store_get chat_id cid (chats_os d)"

definition MAX_ITERATIONS :: nat where
  "MAX_ITERATIONS = 10000"

text \<open>
  The \<^verbatim>\<open>while\<close> loop of \<^verbatim>\<open>getMessages\<close>. The cursor is the list of the records still ahead
  in the key range: its head is \<^verbatim>\<open>cursor.value\<close>, the empty list is the \<^verbatim>\<open>null\<close> cursor.
\<close>

fun getMessages_loop :: "'v list \<Rightarrow> nat \<Rightarrow> nat \<Rightarrow> nat \<Rightarrow> 'v list \<Rightarrow> 'v list" where
  "getMessages_loop [] limit count' iterations acc = acc"
| "getMessages_loop (v # cursor) limit count' iterations acc =
     (if count' < limit \<and> iterations < MAX_ITERATIONS
      then getMessages_loop cursor limit (Suc count') (Suc iterations) (acc @ [v])
      else acc)"

text \<open>
  The key of the index \<^verbatim>\<open>by-chat-index\<close> is \<^verbatim>\<open>[chatId, messageIndex]\<close>; arrays compare
  element by element. \<^verbatim>\<open>IDBKeyRange.bound([chatId, offset], [chatId, Infinity])\<close> is the
  closed interval between the two keys.
\<close>

definition by_chat_index :: "'t Message \<Rightarrow> jsstring \<times> enat" where
  "by_chat_index m = (chatId m, enat (messageIndex m))"

definition getMessages :: "jsstring \<Rightarrow> nat \<Rightarrow> nat \<Rightarrow> 't db \<Rightarrow> 't Message list" where
  "getMessages cid limit offset d =
     getMessages_loop
       (index_getAll by_chat_index (\<lambda>k. (cid, enat offset) \<le> k \<and> k \<le> (cid, \<infinity>))
          (messages_os d))
       limit 0 0 []"

definition getAllMessagesForChat :: "jsstring \<Rightarrow> 't db \<Rightarrow> 't Message list" where
  "getAllMessagesForChat cid d = index_getAll chatId (\<lambda>k. k = cid) (messages_os d)"

text \<open>
  \<^verbatim>\<open>addBookmark\<close>; \<open>now\<close> is \<^verbatim>\<open>Date.now()\<close>, \<open>nowCreated\<close> the Date of \<^verbatim>\<open>new Date()\<close> and \<open>rnd\<close>
  the nine characters drawn from \<^verbatim>\<open>Math.random()\<close>.
\<close>

definition addBookmark ::
  "nat \<Rightarrow> 't \<Rightarrow> jsstring \<Rightarrow> jsstring \<Rightarrow> jsstring \<Rightarrow> jsstring option \<Rightarrow> 't db \<Rightarrow> jsstring \<times> 't db" where
  "addBookmark now nowCreated rnd mid cid bnote d =
     (let bookmarkId = js ''bookmark-'' @ string_of_nat now @ js ''-'' @ rnd;
          bookmark = \<lparr>bm_id = bookmarkId, messageId = mid, bm_chatId = cid,
                      bm_createdAt = nowCreated, bm_note = bnote\<rparr>
      in (bookmarkId, d\<lparr>bookmarks_os := store_put bm_id bookmark (bookmarks_os d)\<rparr>))"

definition removeBookmark :: "jsstring \<Rightarrow> 't db \<Rightarrow> 't db" where
  "removeBookmark bookmarkId d = d\<lparr>bookmarks_os := store_delete bm_id bookmarkId (bookmarks_os d)\<rparr>"

definition getBookmarksForChat :: "jsstring \<Rightarrow> 't db \<Rightarrow> 't Bookmark list" where
  "getBookmarksForChat cid d = index_getAll bm_chatId (\<lambda>k. k = cid) (bookmarks_os d)"

text \<open>
  \<^verbatim>\<open>deleteChat(chatId)\<close>, one transaction over the three stores: the chat, then every
  message key and every bookmark key that the \<^verbatim>\<open>by-chat\<close> indexes list for the chat.
\<close>

definition deleteChat :: "jsstring \<Rightarrow> 't db \<Rightarrow> 't db" where
  "deleteChat cid d =
     (let chats' = store_delete chat_id cid (chats_os d);
          messageKeys = map msg_id (index_getAll chatId (\<lambda>k. k = cid) (messages_os d));
          messages' = fold (store_delete msg_id) messageKeys (messages_os d);
          bookmarkKeys = map bm_id (index_getAll bm_chatId (\<lambda>k. k = cid) (bookmarks_os d));
          bookmarks' = fold (store_delete bm_id) bookmarkKeys (bookmarks_os d)
      in \<lparr>chats_os = chats', messages_os = messages', bookmarks_os = bookmarks'\<rparr>)"

text \<open>Every store holds one record per key, in ascending key order.\<close>

definition wf_db :: "'t db \<Rightarrow> bool" where
  "wf_db d \<longleftrightarrow>
     sorted_wrt (<) (map chat_id (chats_os d)) \<and>
     sorted_wrt (<) (map msg_id (messages_os d)) \<and>
     sorted_wrt (<) (map bm_id (bookmarks_os d))"


section \<open>The store service\<close>

text \<open>
  The module-level Svelte stores \<^verbatim>\<open>chats\<close>, \<^verbatim>\<open>messages\<close>, \<^verbatim>\<open>bookmarks\<close> and \<^verbatim>\<open>appState\<close>
  (here \<open>chats_w\<close>, \<open>messages_w\<close>, \<open>bookmarks_w\<close>, \<open>appState\<close>) and the private fields of
  \<^verbatim>\<open>StoreService\<close>.
\<close>

record AppState =
  currentChatId :: "jsstring option"
  isLoading :: bool
  searchQuery :: jsstring
  showBookmarks :: bool
  isMobile :: bool
  isInitialized :: bool

record 't service =
  messageCache :: "jsstring \<rightharpoonup> 't Message list"
  bookmarkCache :: "jsstring \<rightharpoonup> bool"
  loadingStates :: "jsstring set"
  chats_w :: "'t Chat list"
  messages_w :: "'t Message list"
  bookmarks_w :: "'t Bookmark list"
  appState :: AppState

definition initial_service :: "'t service" where
  "initial_service =
     \<lparr>messageCache = Map.empty, bookmarkCache = Map.empty, loadingStates = {},
      chats_w = [], messages_w = [], bookmarks_w = [],
      appState = \<lparr>currentChatId = None, isLoading = False, searchQuery = [],
                  showBookmarks = False, isMobile = False, isInitialized = False\<rparr>\<rparr>"

text \<open>
  \<^verbatim>\<open>loadMessages(chatId, forceRefresh)\<close> of \<^verbatim>\<open>stores.ts\<close>. \<open>fetch cid\<close> is how
  \<^verbatim>\<open>await Promise.race([dbService.getAllMessagesForChat(chatId), timeoutPromise])\<close> settles:
  \<open>Inr\<close> with the list read, or \<open>Inl\<close> with the error of the storage engine or of the timer.
  The result pairs how the returned promise settles (\<open>Inr ()\<close> resolved, \<open>Inl e\<close> rejected)
  with the state left behind. One call is followed from start to end; what other code
  does while it is suspended is not modelled.
\<close>

definition loadMessages ::
  "(jsstring \<Rightarrow> js_error + 't Message list) \<Rightarrow> jsstring \<Rightarrow> bool \<Rightarrow> 't service
     \<Rightarrow> (js_error + unit) \<times> 't service" where
  "loadMessages fetch cid forceRefresh st =
     (if cid \<in> loadingStates st then (Inr (), st)
      else
        (case (if forceRefresh then None else messageCache st cid) of
           Some cachedMessages \<Rightarrow> (Inr (), st\<lparr>messages_w := cachedMessages\<rparr>)
         | None \<Rightarrow>
             (let st1 = st\<lparr>loadingStates := insert cid (loadingStates st),
                           appState := (appState st)\<lparr>isLoading := True\<rparr>\<rparr>;
                  st2 =
                    (case fetch cid of
                       Inr messageList \<Rightarrow>
                         st1\<lparr>messageCache := (messageCache st1)(cid \<mapsto> messageList),
                             messages_w := messageList\<rparr>
                     | Inl error \<Rightarrow>
                         st1\<lparr>messageCache := (messageCache st1)(cid := None)\<rparr>);
                  st3 = st2\<lparr>loadingStates := loadingStates st2 - {cid},
                            appState := (appState st2)\<lparr>isLoading := False\<rparr>\<rparr>
              in (Inr (), st3))))"

text \<open>\<^verbatim>\<open>switchToChat(chatId)\<close> of \<^verbatim>\<open>stores.ts\<close>.\<close>

definition switchToChat ::
  "(jsstring \<Rightarrow> js_error + 't Message list) \<Rightarrow> jsstring \<Rightarrow> 't service
     \<Rightarrow> (js_error + unit) \<times> 't service" where
  "switchToChat fetch cid st =
     loadMessages fetch cid False
       (st\<lparr>appState := (appState st)\<lparr>currentChatId := Some cid\<rparr>\<rparr>)"

subsection \<open>The version of the service with the circuit breaker\<close>

text \<open>
  The repository holds a second version of \<^verbatim>\<open>StoreService\<close>, which adds a circuit breaker
  per operation, rethrows a failed load and guards \<^verbatim>\<open>switchToChat\<close>. Its two methods are
  modelled next to those of \<^verbatim>\<open>stores.ts\<close>, with the suffix \<open>_cb\<close>. A breaker entry pairs
  the count of failures with the time of the last one.
\<close>

record 't service_cb = "'t service" +
  circuitBreaker :: "jsstring \<rightharpoonup> nat \<times> int"

definition MAX_FAILURES :: nat where
  "MAX_FAILURES = 3"

definition CIRCUIT_BREAKER_TIMEOUT :: int where
  "CIRCUIT_BREAKER_TIMEOUT = 30000"

text \<open>\<^verbatim>\<open>isCircuitBreakerOpen(operation)\<close>; \<open>now\<close> is \<^verbatim>\<open>Date.now()\<close>. An expired breaker is deleted.\<close>

definition isCircuitBreakerOpen :: "int \<Rightarrow> jsstring \<Rightarrow> 't service_cb \<Rightarrow> bool \<times> 't service_cb" where
  "isCircuitBreakerOpen now operation st =
     (case circuitBreaker st operation of
        None \<Rightarrow> (False, st)
      | Some (failures, lastFailure) \<Rightarrow>
          if failures \<ge> MAX_FAILURES
          then (if now - lastFailure < CIRCUIT_BREAKER_TIMEOUT then (True, st)
                else (False, st\<lparr>circuitBreaker := (circuitBreaker st)(operation := None)\<rparr>))
          else (False, st))"

definition recordFailure :: "int \<Rightarrow> jsstring \<Rightarrow> 't service_cb \<Rightarrow> 't service_cb" where
  "recordFailure now operation st =
     (let failures = (case circuitBreaker st operation of None \<Rightarrow> 0 | Some (n, _) \<Rightarrow> n)
      in st\<lparr>circuitBreaker := (circuitBreaker st)(operation \<mapsto> (failures + 1, now))\<rparr>)"

definition recordSuccess :: "jsstring \<Rightarrow> 't service_cb \<Rightarrow> 't service_cb" where
  "recordSuccess operation st = st\<lparr>circuitBreaker := (circuitBreaker st)(operation := None)\<rparr>"

text \<open>
  \<^verbatim>\<open>loadMessages\<close> of that version; \<open>now1\<close> and \<open>now2\<close> are the readings of \<^verbatim>\<open>Date.now()\<close> in
  \<^verbatim>\<open>isCircuitBreakerOpen\<close> and in \<^verbatim>\<open>recordFailure\<close>. What \<open>fetch\<close> returns is a list, so the
  \<^verbatim>\<open>Array.isArray\<close> check passes.
\<close>

definition loadMessages_cb ::
  "(jsstring \<Rightarrow> js_error + 't Message list) \<Rightarrow> int \<Rightarrow> int \<Rightarrow> jsstring \<Rightarrow> bool \<Rightarrow> 't service_cb
     \<Rightarrow> (js_error + unit) \<times> 't service_cb" where
  "loadMessages_cb fetch now1 now2 cid forceRefresh st =
     (let operation = js ''loadMessages-'' @ cid
      in case isCircuitBreakerOpen now1 operation st of
           (True, st0) \<Rightarrow>
             (Inl (Error (js ''Circuit breaker is open for loading messages. Please wait and try again.'')),
              st0)
         | (False, st0) \<Rightarrow>
             if cid \<in> loadingStates st0 then (Inr (), st0)
             else
               (case (if forceRefresh then None else messageCache st0 cid) of
                  Some cachedMessages \<Rightarrow>
                    (Inr (), recordSuccess operation (st0\<lparr>messages_w := cachedMessages\<rparr>))
                | None \<Rightarrow>
                    (let st1 = st0\<lparr>loadingStates := insert cid (loadingStates st0),
                                   appState := (appState st0)\<lparr>isLoading := True\<rparr>\<rparr>;
                         finally = (\<lambda>s. s\<lparr>loadingStates := loadingStates s - {cid},
                                           appState := (appState s)\<lparr>isLoading := False\<rparr>\<rparr>)
                     in case fetch cid of
                          Inr messageList \<Rightarrow>
                            (Inr (),
                             finally (recordSuccess operation
                               (st1\<lparr>messageCache := (messageCache st1)(cid \<mapsto> messageList),
                                    messages_w := messageList\<rparr>)))
                        | Inl error \<Rightarrow>
                            (Inl error,
                             finally ((recordFailure now2 operation st1)
                               \<lparr>messageCache := (messageCache st1)(cid := None),
                                messages_w := []\<rparr>)))))"

text \<open>
  \<^verbatim>\<open>switchToChat\<close> of that version. The load settles within its own time limit, so the
  second timer that \<^verbatim>\<open>switchToChat\<close> races it against is not modelled.
\<close>

definition switchToChat_cb ::
  "(jsstring \<Rightarrow> js_error + 't Message list) \<Rightarrow> int \<Rightarrow> int \<Rightarrow> jsstring \<Rightarrow> 't service_cb
     \<Rightarrow> (js_error + unit) \<times> 't service_cb" where
  "switchToChat_cb fetch now1 now2 cid st =
     (if currentChatId (appState st) = Some cid \<and> \<not> isLoading (appState st) then (Inr (), st)
      else
        (let switchOperation = js ''switchToChat-'' @ cid
         in if switchOperation \<in> loadingStates st then (Inr (), st)
            else
              (let st1 = st\<lparr>loadingStates := insert switchOperation (loadingStates st)\<rparr>;
                   st2 = st1\<lparr>appState := (appState st1)\<lparr>currentChatId := Some cid\<rparr>\<rparr>;
                   finally = (\<lambda>s. s\<lparr>loadingStates := loadingStates s - {switchOperation}\<rparr>)
               in case loadMessages_cb fetch now1 now2 cid False st2 of
                    (Inr u, st3) \<Rightarrow> (Inr (), finally st3)
                  | (Inl error, st3) \<Rightarrow>
                      (Inl error,
                       finally (st3\<lparr>appState :=
                                      (appState st3)\<lparr>currentChatId := None,
                                                    isLoading := False\<rparr>\<rparr>)))))"

text \<open>
  \<^verbatim>\<open>getChatStats(chatId)\<close>. A Date read back from storage is represented by its time value
  in milliseconds, which is what \<^verbatim>\<open><\<close>, \<^verbatim>\<open>>\<close> and \<^verbatim>\<open>getTime\<close> see; \<open>now\<close> is the reading of
  \<^verbatim>\<open>new Date()\<close>. The two quotients are taken exactly. \<^verbatim>\<open>participantStats\<close> is a plain
  object, modelled by the map of its own properties: the model is that of senders whose
  name is not the name of a member of \<^verbatim>\<open>Object.prototype\<close>, for which the read
  \<^verbatim>\<open>participantStats[message.sender]\<close> is \<^verbatim>\<open>undefined\<close> until the sender is counted.
\<close>

record ChatStats =
  cs_messageCount :: nat
  cs_participantStats :: "jsstring \<rightharpoonup> nat"
  cs_dateRange :: "int \<times> int"
  cs_averageMessagesPerDay :: rat

definition getChatStats_step ::
  "int Message \<Rightarrow> (jsstring \<rightharpoonup> nat) \<times> int \<times> int \<Rightarrow> (jsstring \<rightharpoonup> nat) \<times> int \<times> int" where
  "getChatStats_step message acc =
     (case acc of
        (participantStats, startDate, endDate) \<Rightarrow>
          (participantStats(sender message \<mapsto>
             (case participantStats (sender message) of None \<Rightarrow> 0 | Some n \<Rightarrow> n) + 1),
           if timestamp message < startDate then timestamp message else startDate,
           if timestamp message > endDate then timestamp message else endDate))"

definition getChatStats ::
  "int \<Rightarrow> (jsstring \<Rightarrow> js_error + int Message list) \<Rightarrow> jsstring \<Rightarrow> js_error + ChatStats" where
  "getChatStats now fetch cid =
     (case fetch cid of
        Inl e \<Rightarrow> Inl e
      | Inr messageList \<Rightarrow>
          (case fold getChatStats_step messageList (Map.empty, now, 0) of
             (participantStats, startDate, endDate) \<Rightarrow>
               (let daysDiff = max 1 (of_int (endDate - startDate) / (1000 * 60 * 60 * 24))
                in Inr \<lparr>cs_messageCount = length messageList,
                        cs_participantStats = participantStats,
                        cs_dateRange = (startDate, endDate),
                        cs_averageMessagesPerDay = of_nat (length messageList) / daysDiff\<rparr>)))"


section \<open>Auxiliary notions of the proofs\<close>

text \<open>The groups that take part in every match of a pattern.\<close>

fun mgroups :: "regex \<Rightarrow> nat set" where
  "mgroups (Group n r) = insert n (mgroups r)"
| "mgroups (Cat a b) = mgroups a \<union> mgroups b"
| "mgroups (Alt a b) = mgroups a \<inter> mgroups b"
| "mgroups _ = {}"

text \<open>What the two line patterns share after \<^verbatim>\<open>^\<close>.\<close>

definition line_prefix :: "regex list" where
  "line_prefix =
     [Group 1 DATE_PART, Atom (Lit (cu CHR '','')), Atom Space, Group 2 TIME_PART,
      Atom Space, Atom (Lit (cu CHR ''-'')), Atom Space]"

text \<open>
  The continuation rule in the words of the specification: with a message open, a newline
  and the trimmed line are appended to its content; with none open, the line is dropped.
\<close>

definition continuation_rule :: "jsstring \<Rightarrow> pstate \<Rightarrow> pstate" where
  "continuation_rule line st =
     (case currentMessage st of
        None \<Rightarrow> st
      | Some m \<Rightarrow> st\<lparr>currentMessage := Some (m\<lparr>content := content m @ js ''\<newline>'' @ trim line\<rparr>)\<rparr>)"

text \<open>The messages of a chat as the index \<^verbatim>\<open>by-chat-index\<close> lists them.\<close>

definition chat_messages :: "jsstring \<Rightarrow> 't db \<Rightarrow> 't Message list" where
  "chat_messages cid d =
     index_getAll by_chat_index (\<lambda>k. (cid, enat 0) \<le> k \<and> k \<le> (cid, \<infinity>)) (messages_os d)"

text \<open>The value of a decimal numeral, to read \<open>string_of_nat\<close> back.\<close>

definition nat_of_digits :: "jsstring \<Rightarrow> nat" where
  "nat_of_digits s = foldl (\<lambda>a c. 10 * a + digit_val c) 0 s"

text \<open>The records that \<^verbatim>\<open>storeChat\<close> writes for a message list, in input order.\<close>

definition import_records :: "jsstring \<Rightarrow> 't ParsedMessage list \<Rightarrow> 't Message list" where
  "import_records cid msgs = map (\<lambda>i. message_record cid i (msgs ! i)) [0..<length msgs]"

section \<open>Example data\<close>

definition example_message :: "nat \<Rightarrow> int ParsedMessage" where
  "example_message i =
     \<lparr>timestamp = 1700000000000 + 60000 * int i,
      sender = (if even i then js ''Alice'' else js ''Bob''),
      content = js ''message '' @ string_of_nat i\<rparr>"

text \<open>One chat of three messages in an empty database.\<close>

definition db_three :: "int db" where
  "db_three =
     storeChat 1700000300000 1700000300000 (js ''c1'') (js ''Alice & Bob'') [js ''Alice'', js ''Bob'']
       (map example_message [0..<3]) (js ''raw'') empty_db"

text \<open>The same chat id stored again, now with one message.\<close>

definition db_stored_twice :: "int db" where
  "db_stored_twice =
     storeChat 1700000400000 1700000400000 (js ''c1'') (js ''Alice & Bob'') [js ''Alice'', js ''Bob'']
       (map example_message [0..<1]) (js ''raw'') db_three"

text \<open>
  A chat \<open>c1\<close> of ten messages with two bookmarks, next to a chat \<open>c2\<close> of two messages
  with one bookmark.
\<close>

definition db_two_chats :: "int db" where
  "db_two_chats =
     snd (addBookmark 43 1700000500003 (js ''q1w2e3r4t'') (js ''c2-1'') (js ''c2'') None
       (snd (addBookmark 42 1700000500002 (js ''zzzzzzzzz'') (js ''c1-7'') (js ''c1'') (Some (js ''later''))
         (snd (addBookmark 41 1700000500001 (js ''abcdefghi'') (js ''c1-3'') (js ''c1'') None
           (storeChat 1700000400000 1700000400000 (js ''c2'') (js ''Carol (Self Chat)'') [js ''Carol'']
              (map example_message [0..<2]) (js ''raw2'')
              (storeChat 1700000300000 1700000300000 (js ''c1'') (js ''Alice & Bob'') [js ''Alice'', js ''Bob'']
                 (map example_message [0..<10]) (js ''raw1'') empty_db)))))))"

text \<open>A storage read that times out, and one that returns a single message.\<close>

definition fetch_timeout :: "jsstring \<Rightarrow> js_error + int Message list" where
  "fetch_timeout cid = Inl (Error (js ''Message loading timed out''))"

definition fetch_one :: "jsstring \<Rightarrow> js_error + int Message list" where
  "fetch_one cid = Inr [message_record cid 0 (example_message 0)]"

text \<open>The service with an outdated list cached for chat \<open>c1\<close>.\<close>

definition service_stale :: "int service" where
  "service_stale =
     initial_service\<lparr>messageCache := [js ''c1'' \<mapsto> [message_record (js ''c1'') 0 (example_message 0)]]\<rparr>"

text \<open>The service after \<^verbatim>\<open>switchToChat("c1")\<close> whose load timed out.\<close>

definition service_after_failed_switch :: "int service" where
  "service_after_failed_switch = snd (switchToChat fetch_timeout (js ''c1'') initial_service)"

definition initial_service_cb :: "int service_cb" where
  "initial_service_cb =
     \<lparr>messageCache = Map.empty, bookmarkCache = Map.empty, loadingStates = {},
      chats_w = [], messages_w = [], bookmarks_w = [],
      appState = \<lparr>currentChatId = None, isLoading = False, searchQuery = [],
                  showBookmarks = False, isMobile = False, isInitialized = False\<rparr>,
      circuitBreaker = Map.empty\<rparr>"

chapter \<open>Properties\<close>

section \<open>The matcher\<close>

lemma rm_Seq_Nil: "rm ic (Seq []) st = [st]"
  by (simp add: Seq_def)

lemma rm_Seq_Cons: "rm ic (Seq (r # rs)) st = concat (map (rm ic (Seq rs)) (rm ic r st))"
  by (simp add: Seq_def)

lemma concat_map_concat_map:
  "concat (map f (concat (map g zs))) = concat (map (\<lambda>z. concat (map f (g z))) zs)"
  by (induction zs) simp_all

lemma rm_Seq_append:
  "rm ic (Seq (xs @ ys)) st = concat (map (rm ic (Seq ys)) (rm ic (Seq xs) st))"
proof (induction xs arbitrary: st)
  case Nil
  show ?case by (simp add: rm_Seq_Nil)
next
  case (Cons x xs)
  have "rm ic (Seq (xs @ ys)) = (\<lambda>z. concat (map (rm ic (Seq ys)) (rm ic (Seq xs) z)))"
    by (rule ext) (rule Cons.IH)
  then show ?case
    by (simp add: rm_Seq_Cons concat_map_concat_map)
qed

lemma rm_suffix:
  "(e', s', k') \<in> set (rm ic r (e, s, k)) \<Longrightarrow> \<exists>u. s = u @ s'"
proof (induction r arbitrary: e s k e' s' k')
  case (Atom c)
  then show ?case by (cases s) (auto split: if_splits)
next
  case (Rep c lo hi g)
  then obtain n where "s' = drop n s" by auto
  then have "s = take n s @ s'" by simp
  then show ?case by blast
next
  case (Cat a b)
  then obtain e1 s1 k1 where 1: "(e1, s1, k1) \<in> set (rm ic a (e, s, k))"
    and 2: "(e', s', k') \<in> set (rm ic b (e1, s1, k1))" by auto
  from Cat.IH(1)[OF 1] Cat.IH(2)[OF 2] show ?case by auto
next
  case (Alt a b)
  then show ?case by auto
next
  case (Group n r)
  then show ?case by auto
qed (auto split: if_splits)

lemma rm_groups:
  "(e', s', k') \<in> set (rm ic r (e, s, k)) \<Longrightarrow> dom k \<union> mgroups r \<subseteq> dom k'"
proof (induction r arbitrary: e s k e' s' k')
  case (Atom c)
  then show ?case by (cases s) (auto split: if_splits)
next
  case (Cat a b)
  then obtain e1 s1 k1 where 1: "(e1, s1, k1) \<in> set (rm ic a (e, s, k))"
    and 2: "(e', s', k') \<in> set (rm ic b (e1, s1, k1))" by auto
  from Cat.IH(1)[OF 1] Cat.IH(2)[OF 2] show ?case by (simp add: subset_iff)
next
  case (Alt a b)
  then show ?case by fastforce
next
  case (Group n r)
  then obtain k0 where 1: "(e', s', k0) \<in> set (rm ic r (e, s, k))"
    and 2: "k' = k0(n \<mapsto> take (e' - e) s)" by auto
  from Group.IH[OF 1] 2 show ?case by auto
qed (auto split: if_splits)

lemma mgroups_Seq: "mgroups (Seq rs) = (\<Union>r\<in>set rs. mgroups r)"
  by (induction rs) (simp_all add: Seq_def)

lemma rm_Seq_Bol:
  "rm ic (Seq (Bol # rs)) (e, s, k) = (if e = 0 then rm ic (Seq rs) (e, s, k) else [])"
  by (simp add: rm_Seq_Cons)

lemma match_at_Bol: "0 < i \<Longrightarrow> match_at ic (Seq (Bol # rs)) s i = None"
  by (simp add: match_at_def rm_Seq_Bol)

lemma find_upt_first:
  "(\<And>i. 0 < i \<Longrightarrow> \<not> P i) \<Longrightarrow>
   List.find P [0..<Suc n] = (if P 0 then Some 0 else None)"
  by (auto simp: find_None_iff upt_conv_Cons simp del: upt_Suc) 

lemma regex_exec_Bol: "regex_exec ic (Seq (Bol # rs)) s = match_at ic (Seq (Bol # rs)) s 0"
proof -
  have "List.find (\<lambda>i. match_at ic (Seq (Bol # rs)) s i \<noteq> None) [0..<Suc (length s)] =
        (if match_at ic (Seq (Bol # rs)) s 0 \<noteq> None then Some 0 else None)"
    by (rule find_upt_first) (simp add: match_at_Bol)
  then show ?thesis by (auto simp: regex_exec_def)
qed


lemma MESSAGE_REGEX_split:
  "MESSAGE_REGEX =
     Seq (Bol # line_prefix @
          [Group 3 (Rep Dot 1 None False), Atom (Lit (cu CHR '':'')), Atom Space,
           Group 4 (Rep Dot 0 None True), Eol])"
  by (simp add: MESSAGE_REGEX_def line_prefix_def)

lemma SYSTEM_MESSAGE_REGEX_split:
  "SYSTEM_MESSAGE_REGEX = Seq (Bol # line_prefix @ [Group 3 (Rep Dot 0 None True), Eol])"
  by (simp add: SYSTEM_MESSAGE_REGEX_def line_prefix_def)

lemma regex_test_split:
  "regex_test ic (Seq (Bol # pre @ post)) s \<longleftrightarrow>
     (\<exists>st \<in> set (rm ic (Seq pre) (0, s, Map.empty)). rm ic (Seq post) st \<noteq> [])"
proof -
  have "regex_test ic (Seq (Bol # pre @ post)) s \<longleftrightarrow>
        rm ic (Seq (pre @ post)) (0, s, Map.empty) \<noteq> []"
    by (simp add: regex_test_def regex_exec_Bol match_at_def rm_Seq_Bol split: list.splits)
  then show ?thesis
    by (simp add: rm_Seq_append) 
qed

lemma set_rep_counts:
  "set (rep_counts lo hi g avail) =
     {n. lo \<le> n \<and> n \<le> (case hi of None \<Rightarrow> avail | Some h \<Rightarrow> min h avail)}"
  by (auto simp: rep_counts_def Let_def split: option.splits)

lemma concat_map_nonempty: "concat (map f xs) \<noteq> [] \<longleftrightarrow> (\<exists>x\<in>set xs. f x \<noteq> [])"
  by (induction xs) auto

lemma takeWhile_length_all:
  "length xs \<le> length (takeWhile P xs) \<longleftrightarrow> (\<forall>x\<in>set xs. P x)"
proof
  assume "length xs \<le> length (takeWhile P xs)"
  then have "length (takeWhile P xs) = length xs"
    using length_takeWhile_le [of P xs] by simp
  then have "takeWhile P xs = xs"
    by (metis append_eq_conv_conj takeWhile_dropWhile_id take_all order_refl)
  then show "\<forall>x\<in>set xs. P x"
    by (simp add: takeWhile_eq_all_conv)
next
  assume "\<forall>x\<in>set xs. P x"
  then show "length xs \<le> length (takeWhile P xs)" by (induction xs) auto
qed

lemma system_tail:
  "rm ic (Seq [Group n (Rep Dot 0 None True), Eol]) (e, s, k) \<noteq> [] \<longleftrightarrow>
     (\<forall>c\<in>set s. \<not> is_line_terminator c)"
proof -
  have "rm ic (Seq [Group n (Rep Dot 0 None True), Eol]) (e, s, k) \<noteq> [] \<longleftrightarrow>
        (\<exists>m. m \<le> length (takeWhile (cls_match ic Dot) s) \<and> drop m s = [])"
    by (auto simp: rm_Seq_Cons rm_Seq_Nil concat_map_nonempty set_rep_counts)
  also have "\<dots> \<longleftrightarrow> length s \<le> length (takeWhile (cls_match ic Dot) s)"
    by auto
  also have "\<dots> \<longleftrightarrow> (\<forall>c\<in>set s. cls_match ic Dot c)"
    by (rule takeWhile_length_all)
  finally show ?thesis by simp
qed

lemma message_implies_system:
  assumes "regex_test False MESSAGE_REGEX line"
    and "\<forall>c\<in>set line. \<not> is_line_terminator c"
  shows "regex_test False SYSTEM_MESSAGE_REGEX line"
proof -
  from assms(1) obtain st where st: "st \<in> set (rm False (Seq line_prefix) (0, line, Map.empty))"
    unfolding MESSAGE_REGEX_split regex_test_split by blast
  obtain e s k where [simp]: "st = (e, s, k)" by (cases st)
  from st obtain u where "line = u @ s" using rm_suffix by fastforce
  with assms(2) have "\<forall>c\<in>set s. \<not> is_line_terminator c" by auto
  then have "rm False (Seq [Group 3 (Rep Dot 0 None True), Eol]) st \<noteq> []"
    by (simp add: system_tail)
  with st show ?thesis
    unfolding SYSTEM_MESSAGE_REGEX_split regex_test_split by blast
qed


lemma match_at_groups: "match_at ic r s i = Some k \<Longrightarrow> mgroups r \<subseteq> dom k"
proof -
  assume a: "match_at ic r s i = Some k"
  then obtain e s' k0 rest where 1: "rm ic r (i, drop i s, Map.empty) = (e, s', k0) # rest"
    and 2: "k = k0(0 \<mapsto> take (e - i) (drop i s))"
    by (auto simp: match_at_def split: list.splits)
  from 1 have "(e, s', k0) \<in> set (rm ic r (i, drop i s, Map.empty))" by simp
  then have "mgroups r \<subseteq> dom k0" using rm_groups by blast
  with 2 show ?thesis by auto
qed

lemma regex_exec_groups: "regex_exec ic r s = Some k \<Longrightarrow> mgroups r \<subseteq> dom k"
  by (auto simp: regex_exec_def split: option.splits dest: match_at_groups)

lemma message_groups: "{1, 2, 3, 4} \<subseteq> mgroups MESSAGE_REGEX"
  by (simp add: MESSAGE_REGEX_def mgroups_Seq)

lemma system_groups: "{1, 2, 3} \<subseteq> mgroups SYSTEM_MESSAGE_REGEX"
  by (simp add: SYSTEM_MESSAGE_REGEX_def mgroups_Seq)

lemma message_captures:
  assumes "regex_exec False MESSAGE_REGEX line = Some k"
  shows "\<exists>d t s c. k 1 = Some d \<and> k 2 = Some t \<and> k 3 = Some s \<and> k 4 = Some c"
proof -
  from assms have "mgroups MESSAGE_REGEX \<subseteq> dom k" by (rule regex_exec_groups)
  with message_groups have "{1, 2, 3, 4} \<subseteq> dom k" by blast
  then show ?thesis by (auto simp: dom_def)
qed

lemma system_captures:
  assumes "regex_exec False SYSTEM_MESSAGE_REGEX line = Some k"
  shows "\<exists>d t c. k 1 = Some d \<and> k 2 = Some t \<and> k 3 = Some c"
proof -
  from assms have "mgroups SYSTEM_MESSAGE_REGEX \<subseteq> dom k" by (rule regex_exec_groups)
  with system_groups have "{1, 2, 3} \<subseteq> dom k" by blast
  then show ?thesis by (auto simp: dom_def)
qed

lemma parseDateTime_defined: "\<exists>ts. parseDateTime (Some d) (Some t) = Inr ts"
  by (simp add: parseDateTime_def Let_def)

lemma parse_line_attributed:
  assumes "regex_exec False MESSAGE_REGEX line = Some k"
  shows "\<exists>ts s c. parseDateTime (k 1) (k 2) = Inr ts \<and> k 3 = Some s \<and> k 4 = Some c \<and>
           parse_line line st =
             Inr \<lparr>messages = push_current st,
                  participantSet = set_add (trim (strip_tilde s)) (participantSet st),
                  currentMessage =
                    Some \<lparr>timestamp = ts, sender = trim (strip_tilde s), content = trim c\<rparr>\<rparr>"
proof -
  from message_captures [OF assms] obtain d t s c
    where k: "k 1 = Some d" "k 2 = Some t" "k 3 = Some s" "k 4 = Some c" by blast
  obtain ts where ts: "parseDateTime (Some d) (Some t) = Inr ts"
    using parseDateTime_defined by blast
  show ?thesis
    using assms k ts by (simp add: parse_line_def Let_def)
qed

lemma parse_line_system:
  assumes "regex_exec False MESSAGE_REGEX line = None"
    and "regex_exec False SYSTEM_MESSAGE_REGEX line = Some k"
  shows "\<exists>ts c. parseDateTime (k 1) (k 2) = Inr ts \<and> k 3 = Some c \<and>
           parse_line line st =
             Inr \<lparr>messages =
                    push_current st @ [\<lparr>timestamp = ts, sender = js ''System'', content = trim c\<rparr>],
                  participantSet = participantSet st,
                  currentMessage = None\<rparr>"
proof -
  from system_captures [OF assms(2)] obtain d t c
    where k: "k 1 = Some d" "k 2 = Some t" "k 3 = Some c" by blast
  obtain ts where ts: "parseDateTime (Some d) (Some t) = Inr ts"
    using parseDateTime_defined by blast
  show ?thesis
    using assms k ts by (simp add: parse_line_def Let_def)
qed

lemma parse_line_unmatched:
  assumes "regex_exec False MESSAGE_REGEX line = None"
    and "regex_exec False SYSTEM_MESSAGE_REGEX line = None"
    and "trim line \<noteq> []"
  shows "parse_line line st = Inr (continuation_rule line st)"
  using assms by (simp add: parse_line_def continuation_rule_def split: option.splits)

lemma parse_line_total: "\<exists>st'. parse_line line st = Inr st'"
proof (cases "regex_exec False MESSAGE_REGEX line")
  case (Some k)
  from parse_line_attributed [OF Some] show ?thesis by blast
next
  case None
  show ?thesis
  proof (cases "regex_exec False SYSTEM_MESSAGE_REGEX line")
    case (Some k)
    from parse_line_system [OF None Some] show ?thesis by blast
  next
    case N2: None
    with None show ?thesis
      by (simp add: parse_line_def split: option.splits)
  qed
qed

lemma parse_loop_total: "\<exists>st'. parse_loop lines st = Inr st'"
proof (induction lines arbitrary: st)
  case Nil
  show ?case by simp
next
  case (Cons line lines)
  obtain st1 where "parse_line line st = Inr st1" using parse_line_total by blast
  with Cons.IH [of st1] show ?case by simp
qed

lemma parse_loop_append:
  "parse_loop (xs @ ys) st =
     (case parse_loop xs st of Inl e \<Rightarrow> Inl e | Inr st' \<Rightarrow> parse_loop ys st')"
  by (induction xs arbitrary: st) (auto split: sum.splits)

lemma parse_total: "\<exists>r. parse nowStart nowEnd text = Inr r"
proof -
  obtain st where "parse_loop (nonblank_lines text) initial_pstate = Inr st"
    using parse_loop_total by blast
  then show ?thesis by (simp add: parse_def Let_def)
qed

lemma nonblank_lines_trim: "line \<in> set (nonblank_lines text) \<Longrightarrow> trim line \<noteq> []"
  by (simp add: nonblank_lines_def)

section \<open>The parser on the two-line transcript\<close>

text \<open>
  Claim C1. The transcript
  \<^verbatim>\<open>"2/24/24, 21:56 - Alice: Hello there!\n2/24/24, 21:59 - ~ Bob: Hi! How are you?"\<close>
  parses without error into exactly two messages, in this order: sender \<open>Alice\<close> with
  content \<open>Hello there!\<close>, then sender \<open>Bob\<close> (the leading \<open>~ \<close> stripped) with content
  \<open>Hi! How are you?\<close>. The participants are \<open>Alice\<close> and \<open>Bob\<close>, and the chat name is
  \<open>Alice & Bob\<close>, by the rule for two participants.
\<close>

theorem parse_two_line_transcript:
  "parse nowStart nowEnd (js ''2/24/24, 21:56 - Alice: Hello there!\<newline>2/24/24, 21:59 - ~ Bob: Hi! How are you?'') =
     Inr ([\<lparr>timestamp = DateLocal (Some 2024) (Some 1) (Some 24) (Some 21) (Some 56),
            sender = js ''Alice'', content = js ''Hello there!''\<rparr>,
           \<lparr>timestamp = DateLocal (Some 2024) (Some 1) (Some 24) (Some 21) (Some 59),
            sender = js ''Bob'', content = js ''Hi! How are you?''\<rparr>],
          \<lparr>md_name = Some (js ''Alice & Bob''),
           md_participants = [js ''Alice'', js ''Bob''],
           md_messageCount = 2,
           md_dateRange =
             (DateLocal (Some 2024) (Some 1) (Some 24) (Some 21) (Some 56),
              DateLocal (Some 2024) (Some 1) (Some 24) (Some 21) (Some 59))\<rparr>)"
  by code_simp

section \<open>Unrecognised lines and totality of the parser\<close>

text \<open>
  Claim C5, as the code has it. \<^verbatim>\<open>parse\<close> returns a result on every text: no step of it
  throws. The lines it works on are the pieces between newlines that are not blank
  (not empty after trimming); blank pieces are dropped before any line is classified.
  For every line of those that matches neither the attributed nor the system pattern:
  with a message open, a newline and the trimmed line are appended to the content of
  that message; with no message open, the line is dropped.
\<close>

theorem parse_never_fails_and_continues:
  "(\<exists>r. parse nowStart nowEnd text = Inr r) \<and>
   (\<forall>pre line post st.
      nonblank_lines text = pre @ line # post \<and>
      \<not> regex_test False MESSAGE_REGEX line \<and>
      \<not> regex_test False SYSTEM_MESSAGE_REGEX line \<and>
      parse_loop pre initial_pstate = Inr st \<longrightarrow>
      parse_loop (pre @ [line]) initial_pstate = Inr (continuation_rule line st))"
proof (intro conjI allI impI)
  show "\<exists>r. parse nowStart nowEnd text = Inr r" by (rule parse_total)
next
  fix pre line post st
  assume a: "nonblank_lines text = pre @ line # post \<and>
      \<not> regex_test False MESSAGE_REGEX line \<and>
      \<not> regex_test False SYSTEM_MESSAGE_REGEX line \<and>
      parse_loop pre initial_pstate = Inr st"
  then have "line \<in> set (nonblank_lines text)" by simp
  then have t: "trim line \<noteq> []" by (rule nonblank_lines_trim)
  from a have "regex_exec False MESSAGE_REGEX line = None"
    and "regex_exec False SYSTEM_MESSAGE_REGEX line = None"
    by (simp_all add: regex_test_def)
  then have "parse_line line st = Inr (continuation_rule line st)"
    using t by (rule parse_line_unmatched)
  with a show "parse_loop (pre @ [line]) initial_pstate = Inr (continuation_rule line st)"
    by (simp add: parse_loop_append)
qed

text \<open>
  The theorem at the text \<^verbatim>\<open>"1/1/24, 10:00 - A: hi\nthere"\<close>: the second line matches
  neither pattern and continues the message of \<open>A\<close>.
\<close>

theorem parse_never_fails_and_continues_witness:
  "nonblank_lines (js ''1/1/24, 10:00 - A: hi\<newline>there'') = [js ''1/1/24, 10:00 - A: hi''] @ js ''there'' # [] \<and>
   \<not> regex_test False MESSAGE_REGEX (js ''there'') \<and>
   \<not> regex_test False SYSTEM_MESSAGE_REGEX (js ''there'') \<and>
   parse_loop ([js ''1/1/24, 10:00 - A: hi''] @ [js ''there'']) initial_pstate =
     Inr \<lparr>messages = [], participantSet = [js ''A''],
          currentMessage =
            Some \<lparr>timestamp = DateLocal (Some 2024) (Some 0) (Some 1) (Some 10) (Some 0),
                  sender = js ''A'', content = js ''hi\<newline>there''\<rparr>\<rparr>"
proof -
  let ?st = "\<lparr>messages = [], participantSet = [js ''A''],
              currentMessage =
                Some \<lparr>timestamp = DateLocal (Some 2024) (Some 0) (Some 1) (Some 10) (Some 0),
                      sender = js ''A'', content = js ''hi''\<rparr>\<rparr>"
  have 1: "nonblank_lines (js ''1/1/24, 10:00 - A: hi\<newline>there'') =
             [js ''1/1/24, 10:00 - A: hi''] @ js ''there'' # []"
    by code_simp
  have 2: "\<not> regex_test False MESSAGE_REGEX (js ''there'')" by code_simp
  have 3: "\<not> regex_test False SYSTEM_MESSAGE_REGEX (js ''there'')" by code_simp
  have 4: "parse_loop [js ''1/1/24, 10:00 - A: hi''] initial_pstate = Inr ?st" by code_simp
  from parse_never_fails_and_continues [of 0 0 "js ''1/1/24, 10:00 - A: hi\<newline>there''"] 1 2 3 4
  have "parse_loop ([js ''1/1/24, 10:00 - A: hi''] @ [js ''there'']) initial_pstate =
          Inr (continuation_rule (js ''there'') ?st)"
    by blast
  moreover have "continuation_rule (js ''there'') ?st =
      \<lparr>messages = [], participantSet = [js ''A''],
       currentMessage =
         Some \<lparr>timestamp = DateLocal (Some 2024) (Some 0) (Some 1) (Some 10) (Some 0),
               sender = js ''A'', content = js ''hi\<newline>there''\<rparr>\<rparr>"
    by code_simp
  ultimately show ?thesis using 1 2 3 by simp
qed

text \<open>
  Read over every piece between newlines, the rule fails on a blank one. In
  \<^verbatim>\<open>"1/1/24, 10:00 - A: hi\n \nthere"\<close> the second piece is one space: it matches neither
  pattern and arrives while the message of \<open>A\<close> is open, yet nothing is appended for it.
  The content comes out as \<^verbatim>\<open>"hi\nthere"\<close>, where the rule applied to the three pieces
  gives \<^verbatim>\<open>"hi\n\nthere"\<close>.
\<close>

theorem blank_line_is_not_appended:
  "split_on (cu CHR ''\<newline>'') (js ''1/1/24, 10:00 - A: hi\<newline> \<newline>there'') =
     [js ''1/1/24, 10:00 - A: hi'', js '' '', js ''there''] \<and>
   \<not> regex_test False MESSAGE_REGEX (js '' '') \<and>
   \<not> regex_test False SYSTEM_MESSAGE_REGEX (js '' '') \<and>
   parse_loop [js ''1/1/24, 10:00 - A: hi''] initial_pstate =
     Inr \<lparr>messages = [], participantSet = [js ''A''],
          currentMessage =
            Some \<lparr>timestamp = DateLocal (Some 2024) (Some 0) (Some 1) (Some 10) (Some 0),
                  sender = js ''A'', content = js ''hi''\<rparr>\<rparr> \<and>
   parse 0 0 (js ''1/1/24, 10:00 - A: hi\<newline> \<newline>there'') =
     Inr ([\<lparr>timestamp = DateLocal (Some 2024) (Some 0) (Some 1) (Some 10) (Some 0),
            sender = js ''A'', content = js ''hi\<newline>there''\<rparr>],
          \<lparr>md_name = Some (js ''A (Self Chat)''), md_participants = [js ''A''], md_messageCount = 1,
           md_dateRange =
             (DateLocal (Some 2024) (Some 0) (Some 1) (Some 10) (Some 0),
              DateLocal (Some 2024) (Some 0) (Some 1) (Some 10) (Some 0))\<rparr>) \<and>
   push_current
     (continuation_rule (js ''there'')
        (continuation_rule (js '' '')
           \<lparr>messages = [], participantSet = [js ''A''],
            currentMessage =
              Some \<lparr>timestamp = DateLocal (Some 2024) (Some 0) (Some 1) (Some 10) (Some 0),
                    sender = js ''A'', content = js ''hi''\<rparr>\<rparr>)) =
     [\<lparr>timestamp = DateLocal (Some 2024) (Some 0) (Some 1) (Some 10) (Some 0),
       sender = js ''A'', content = js ''hi\<newline>\<newline>there''\<rparr>]"
  by code_simp

section \<open>The two line patterns\<close>

text \<open>
  Claim C9, as the code has it. A line that matches the attributed pattern and holds no
  line terminator, that is no code unit among LF, CR, \<open>0x2028\<close> and \<open>0x2029\<close>, also matches
  the system pattern. Whatever the system pattern does, a line that matches the
  attributed pattern is classified as attributed, that pattern being tried first: the
  iteration flushes the open message, registers the sender of group 3 and opens a
  message for it.
\<close>

theorem attributed_lines_and_system_pattern:
  assumes "regex_test False MESSAGE_REGEX line"
  shows "((\<forall>c\<in>set line. \<not> is_line_terminator c) \<longrightarrow>
            regex_test False SYSTEM_MESSAGE_REGEX line) \<and>
         (\<exists>k ts s c.
            regex_exec False MESSAGE_REGEX line = Some k \<and>
            parseDateTime (k 1) (k 2) = Inr ts \<and> k 3 = Some s \<and> k 4 = Some c \<and>
            parse_line line st =
              Inr \<lparr>messages = push_current st,
                   participantSet = set_add (trim (strip_tilde s)) (participantSet st),
                   currentMessage =
                     Some \<lparr>timestamp = ts, sender = trim (strip_tilde s), content = trim c\<rparr>\<rparr>)"
proof
  show "(\<forall>c\<in>set line. \<not> is_line_terminator c) \<longrightarrow> regex_test False SYSTEM_MESSAGE_REGEX line"
    using assms message_implies_system by blast
next
  from assms obtain k where k: "regex_exec False MESSAGE_REGEX line = Some k"
    by (auto simp: regex_test_def)
  from parse_line_attributed [OF k, of st] k
  show "\<exists>k ts s c.
          regex_exec False MESSAGE_REGEX line = Some k \<and>
          parseDateTime (k 1) (k 2) = Inr ts \<and> k 3 = Some s \<and> k 4 = Some c \<and>
          parse_line line st =
            Inr \<lparr>messages = push_current st,
                 participantSet = set_add (trim (strip_tilde s)) (participantSet st),
                 currentMessage =
                   Some \<lparr>timestamp = ts, sender = trim (strip_tilde s), content = trim c\<rparr>\<rparr>"
    by blast
qed

text \<open>The theorem at the line \<^verbatim>\<open>"2/24/24, 21:56 - Alice: Hello there!"\<close>.\<close>

theorem attributed_lines_and_system_pattern_witness:
  "regex_test False MESSAGE_REGEX (js ''2/24/24, 21:56 - Alice: Hello there!'') \<and>
   filter is_line_terminator (js ''2/24/24, 21:56 - Alice: Hello there!'') = [] \<and>
   regex_test False SYSTEM_MESSAGE_REGEX (js ''2/24/24, 21:56 - Alice: Hello there!'')"
proof -
  have m: "regex_test False MESSAGE_REGEX (js ''2/24/24, 21:56 - Alice: Hello there!'')"
    by code_simp
  have f: "filter is_line_terminator (js ''2/24/24, 21:56 - Alice: Hello there!'') = []"
    by code_simp
  then have "\<forall>c\<in>set (js ''2/24/24, 21:56 - Alice: Hello there!''). \<not> is_line_terminator c"
    by (simp only: filter_empty_conv) 
  with attributed_lines_and_system_pattern [OF m, of initial_pstate] m f
  show ?thesis by blast
qed

text \<open>
  The system pattern does reject lines that the attributed pattern accepts. In
  \<^verbatim>\<open>"1/1/24, 10:00 - Bob:\r"\<close> the carriage return is the white space that \<^verbatim>\<open>\s\<close> takes after
  the colon of the sender, but no \<^verbatim>\<open>.\<close> of the system pattern can take it. The same holds
  of \<^verbatim>\<open>"1/1/24, 10:00 - Bob:\u2028"\<close> and of \<^verbatim>\<open>"1/1/24, 10:00 - Bob:\u2029"\<close>. None of the
  three lines holds a line feed, so each of them is a line of the parser.
\<close>

theorem system_pattern_rejects_attributed_line:
  "regex_test False MESSAGE_REGEX (js ''1/1/24, 10:00 - Bob:'' @ [(CHR 0x00, CHR 0x0D)]) \<and>
   \<not> regex_test False SYSTEM_MESSAGE_REGEX (js ''1/1/24, 10:00 - Bob:'' @ [(CHR 0x00, CHR 0x0D)]) \<and>
   regex_test False MESSAGE_REGEX (js ''1/1/24, 10:00 - Bob:'' @ [(CHR 0x20, CHR 0x28)]) \<and>
   \<not> regex_test False SYSTEM_MESSAGE_REGEX (js ''1/1/24, 10:00 - Bob:'' @ [(CHR 0x20, CHR 0x28)]) \<and>
   regex_test False MESSAGE_REGEX (js ''1/1/24, 10:00 - Bob:'' @ [(CHR 0x20, CHR 0x29)]) \<and>
   \<not> regex_test False SYSTEM_MESSAGE_REGEX (js ''1/1/24, 10:00 - Bob:'' @ [(CHR 0x20, CHR 0x29)]) \<and>
   nonblank_lines (js ''1/1/24, 10:00 - Bob:'' @ [(CHR 0x00, CHR 0x0D)]) =
     [js ''1/1/24, 10:00 - Bob:'' @ [(CHR 0x00, CHR 0x0D)]] \<and>
   nonblank_lines (js ''1/1/24, 10:00 - Bob:'' @ [(CHR 0x20, CHR 0x28)]) =
     [js ''1/1/24, 10:00 - Bob:'' @ [(CHR 0x20, CHR 0x28)]] \<and>
   nonblank_lines (js ''1/1/24, 10:00 - Bob:'' @ [(CHR 0x20, CHR 0x29)]) =
     [js ''1/1/24, 10:00 - Bob:'' @ [(CHR 0x20, CHR 0x29)]]"
  by code_simp

section \<open>Validation\<close>

lemma trim_Nil_iff: "trim s = [] \<longleftrightarrow> (\<forall>c\<in>set s. is_space c)"
proof
  assume "trim s = []"
  then have a: "\<forall>c\<in>set (dropWhile is_space s). is_space c"
    by (simp add: trim_def dropWhile_eq_Nil_conv)
  show "\<forall>c\<in>set s. is_space c"
  proof (cases "dropWhile is_space s")
    case Nil
    then show ?thesis by (simp add: dropWhile_eq_Nil_conv)
  next
    case (Cons x xs)
    then have "\<not> is_space x" using hd_dropWhile [of is_space s] by simp
    moreover have "is_space x" using a Cons by simp
    ultimately show ?thesis by simp
  qed
next
  assume "\<forall>c\<in>set s. is_space c"
  then have d: "dropWhile is_space s = []" by (simp add: dropWhile_eq_Nil_conv)
  show "trim s = []" unfolding trim_def d by simp
qed

lemma split_on_nonempty: "split_on sep s \<noteq> []"
  by (induction s) (auto split: list.splits)

lemma set_split_on: "(\<Union>l\<in>set (split_on sep s). set l) = set s - {sep}"
proof (induction s)
  case Nil
  show ?case by simp
next
  case (Cons c cs)
  show ?case
  proof (cases "c = sep")
    case True
    with Cons show ?thesis by auto
  next
    case False
    obtain l ls where sp: "split_on sep cs = l # ls"
      using split_on_nonempty [of sep cs] by (cases "split_on sep cs") auto
    with Cons False show ?thesis by auto
  qed
qed

lemma nonblank_lines_nonempty:
  assumes "trim text \<noteq> []"
  shows "nonblank_lines text \<noteq> []"
proof -
  from assms obtain c where c: "c \<in> set text" "\<not> is_space c"
    by (auto simp: trim_Nil_iff)
  have "is_space (cu CHR ''\<newline>'')"
    by (simp add: is_space_def is_line_terminator_def cu_def)
  with c have "c \<in> set text - {cu CHR ''\<newline>''}" by auto
  then obtain l where l: "l \<in> set (split_on (cu CHR ''\<newline>'') text)" "c \<in> set l"
    unfolding set_split_on [symmetric] by blast
  with c have "trim l \<noteq> []" by (auto simp: trim_Nil_iff)
  with l show ?thesis by (auto simp: nonblank_lines_def filter_empty_conv)
qed

lemma fold_validate_count:
  assumes "\<forall>l\<in>set ls. trim l \<noteq> []"
  shows "fold validate_count ls (v, t) =
           (v + length (filter (\<lambda>l. regex_test False MESSAGE_REGEX l \<or>
                                      regex_test False SYSTEM_MESSAGE_REGEX l) ls),
            t + length ls)"
  using assms by (induction ls arbitrary: v t) (simp_all add: validate_count_def)

lemma ratio_below_threshold_iff:
  "ratio_below_threshold v t \<longleftrightarrow> t \<noteq> 0 \<and> 10 * v < 3 * t"
proof (cases "t = 0")
  case True
  then show ?thesis by (simp add: ratio_below_threshold_def)
next
  case False
  then have "(of_nat v / of_nat t :: rat) < 3 / 10 \<longleftrightarrow> (of_nat (10 * v) :: rat) < of_nat (3 * t)"
    by (simp add: field_simps)
  also have "\<dots> \<longleftrightarrow> 10 * v < 3 * t" by (simp only: of_nat_less_iff)
  finally show ?thesis using False by (simp add: ratio_below_threshold_def)
qed


text \<open>
  Claim C6. Content that is empty after trimming is invalid, with the one entry for empty
  content. Otherwise, over the first at most 50 lines that are not blank, with \<open>v\<close> of
  the \<open>t\<close> sampled lines matching either pattern: the content is valid exactly when
  \<open>v / t\<close> is at least \<open>0.3\<close> and \<open>v\<close> is at least \<open>1\<close>; a ratio below \<open>0.3\<close> contributes
  its two entries, and \<open>v = 0\<close> contributes its own two, independently.
\<close>

theorem validate_verdict:
  "validate text =
     (if trim text = [] then (False, [ContentEmpty])
      else
        (let sample = take 50 (nonblank_lines text);
             v = length (filter (\<lambda>l. regex_test False MESSAGE_REGEX l \<or>
                                      regex_test False SYSTEM_MESSAGE_REGEX l) sample);
             t = length sample
         in (3 * t \<le> 10 * v \<and> 1 \<le> v,
             (if 10 * v < 3 * t then [NotAChatExport, OnlyPercentMatch v t] else []) @
             (if v = 0 then [NoValidMessageFormat, ExpectedFormatHint] else []))))"
proof (cases "trim text = []")
  case True
  then show ?thesis by (simp add: validate_def)
next
  case False
  then have ne: "nonblank_lines text \<noteq> []" by (rule nonblank_lines_nonempty)
  from False have tne: "text \<noteq> []" by (auto simp: trim_def)
  let ?sample = "take 50 (nonblank_lines text)"
  have s: "take (min 50 (length (nonblank_lines text))) (nonblank_lines text) = ?sample"
    by (simp add: min_def)
  have "\<forall>l\<in>set ?sample. trim l \<noteq> []"
    by (auto simp: nonblank_lines_def dest: in_set_takeD)
  then have f: "fold validate_count ?sample (0, 0) =
      (length (filter (\<lambda>l. regex_test False MESSAGE_REGEX l \<or>
                            regex_test False SYSTEM_MESSAGE_REGEX l) ?sample),
       length ?sample)"
    using fold_validate_count [of ?sample 0 0] by simp
  have t0: "length ?sample \<noteq> 0" using ne by simp
  show ?thesis
    using False tne ne t0
    by (simp add: validate_def Let_def s f ratio_below_threshold_iff Suc_le_eq)
qed


text \<open>The theorem at \<^verbatim>\<open>"random unrelated text\nmore junk"\<close>: invalid, with all four entries.\<close>

theorem validate_verdict_witness:
  "validate (js ''random unrelated text\<newline>more junk'') =
     (False, [NotAChatExport, OnlyPercentMatch 0 2, NoValidMessageFormat, ExpectedFormatHint])"
proof -
  have 1: "trim (js ''random unrelated text\<newline>more junk'') \<noteq> []" by code_simp
  have 2: "take 50 (nonblank_lines (js ''random unrelated text\<newline>more junk'')) =
             [js ''random unrelated text'', js ''more junk'']" by code_simp
  have 3: "\<not> regex_test False MESSAGE_REGEX (js ''random unrelated text'')" by code_simp
  have 4: "\<not> regex_test False SYSTEM_MESSAGE_REGEX (js ''random unrelated text'')" by code_simp
  have 5: "\<not> regex_test False MESSAGE_REGEX (js ''more junk'')" by code_simp
  have 6: "\<not> regex_test False SYSTEM_MESSAGE_REGEX (js ''more junk'')" by code_simp
  show ?thesis
    using validate_verdict [of "js ''random unrelated text\<newline>more junk''"] 1
    by (simp only: 2 Let_def if_False) (simp add: 3 4 5 6)
qed

section \<open>The storage engine\<close>

subsection \<open>Decimal rendering is injective\<close>

lemma digit_val_digit_char:
  assumes "d < 10"
  shows "digit_val (digit_char d) = d"
proof -
  from assms have "d = 0 \<or> d = 1 \<or> d = 2 \<or> d = 3 \<or> d = 4 \<or>
      d = 5 \<or> d = 6 \<or> d = 7 \<or> d = 8 \<or> d = 9"
    by presburger
  then show ?thesis
    by (elim disjE) (simp_all add: digit_val_def digit_char_def js_def cu_def)
qed

lemma nat_of_digits_append:
  "nat_of_digits (s @ [c]) = 10 * nat_of_digits s + digit_val c"
  by (simp add: nat_of_digits_def)

lemma nat_of_digits_string_of_nat: "nat_of_digits (string_of_nat n) = n"
proof (induction n rule: string_of_nat.induct)
  case (1 n)
  show ?case
  proof (cases "n < 10")
    case True
    then show ?thesis
      by (subst string_of_nat.simps) (simp add: nat_of_digits_def digit_val_digit_char)
  next
    case False
    with "1.IH" show ?thesis
      by (subst string_of_nat.simps) (simp add: nat_of_digits_append digit_val_digit_char)
  qed
qed

lemma string_of_nat_inj: "string_of_nat a = string_of_nat b \<Longrightarrow> a = b"
  by (metis nat_of_digits_string_of_nat)

lemma message_record_id_inj:
  "msg_id (message_record cid i m) = msg_id (message_record cid j m') \<Longrightarrow> i = j"
  by (simp add: message_record_def string_of_nat_inj)

subsection \<open>Object stores\<close>

lemma fold_store_delete:
  "fold (store_delete key) ks s = filter (\<lambda>x. key x \<notin> set ks) s"
proof (induction ks arbitrary: s)
  case Nil
  show ?case by simp
next
  case (Cons k ks)
  have "fold (store_delete key) (k # ks) s =
        filter (\<lambda>x. key x \<notin> set ks) (store_delete key k s)"
    by (simp add: Cons.IH)
  also have "\<dots> = filter (\<lambda>x. key x \<notin> set (k # ks)) s"
    by (simp add: store_delete_def conj_commute)
  finally show ?case .
qed

lemma mset_store_put:
  "mset (store_put key v s) = add_mset v (mset (filter (\<lambda>x. key x \<noteq> key v) s))"
  by (simp add: store_put_def)

lemma mset_fold_store_put:
  "distinct (map key vs) \<Longrightarrow>
   mset (fold (store_put key) vs s) =
     mset vs + mset (filter (\<lambda>x. key x \<notin> key ` set vs) s)"
proof (induction vs arbitrary: s)
  case Nil
  show ?case by simp
next
  case (Cons v vs)
  then have d: "distinct (map key vs)" and n: "key v \<notin> key ` set vs" by auto
  have "mset (fold (store_put key) (v # vs) s) =
        mset vs + mset (filter (\<lambda>x. key x \<notin> key ` set vs) (store_put key v s))"
    using Cons.IH [OF d] by simp
  also have "mset (filter (\<lambda>x. key x \<notin> key ` set vs) (store_put key v s)) =
        filter_mset (\<lambda>x. key x \<notin> key ` set vs) (mset (store_put key v s))"
    by simp
  also have "\<dots> = add_mset v (mset (filter (\<lambda>x. key x \<notin> key ` set (v # vs)) s))"
    using n by (simp add: mset_store_put filter_filter_mset conj_commute)
  finally show ?case by simp
qed

lemma storeChat_loop_fold:
  "storeChat_loop cid msgs i s =
     fold (store_put msg_id) (map (\<lambda>j. message_record cid j (msgs ! j)) [i..<length msgs]) s"
proof (induction cid msgs i s rule: storeChat_loop.induct)
  case (1 cid msgs i s)
  show ?case
  proof (cases "i < length msgs")
    case True
    with "1.IH" show ?thesis
      by (subst storeChat_loop.simps) (simp add: upt_conv_Cons)
  next
    case False
    then show ?thesis by (subst storeChat_loop.simps) simp
  qed
qed

subsection \<open>Well-formed stores\<close>

lemma distinct_map_insort_key:
  "distinct (map key (insort_key key v xs)) \<longleftrightarrow> key v \<notin> key ` set xs \<and> distinct (map key xs)"
  by (induction xs) (auto simp: set_insort_key)

lemma strict_sorted_store_put:
  assumes "sorted_wrt (<) (map key s)"
  shows "sorted_wrt (<) (map key (store_put key v s))"
proof -
  from assms have s: "sorted (map key s)" and d: "distinct (map key s)"
    by (simp_all add: strict_sorted_iff)
  have "sorted (map key (filter (\<lambda>x. key x \<noteq> key v) s))"
    using s by (rule sorted_filter)
  then have "sorted (map key (store_put key v s))"
    by (simp add: store_put_def sorted_insort_key)
  moreover have "distinct (map key (store_put key v s))"
    using d by (auto simp: store_put_def distinct_map_insort_key distinct_map_filter)
  ultimately show ?thesis by (simp add: strict_sorted_iff)
qed

lemma strict_sorted_fold_store_put:
  "sorted_wrt (<) (map key s) \<Longrightarrow> sorted_wrt (<) (map key (fold (store_put key) vs s))"
  by (induction vs arbitrary: s) (simp_all add: strict_sorted_store_put)

lemma strict_sorted_filter:
  fixes key :: "'v \<Rightarrow> 'k::linorder"
  assumes "sorted_wrt (<) (map key s)"
  shows "sorted_wrt (<) (map key (filter P s))"
proof -
  from assms have "sorted (map key s)" and "distinct (map key s)"
    by (simp_all add: strict_sorted_iff)
  then have "sorted (map key (filter P s))" and "distinct (map key (filter P s))"
    by (simp_all add: sorted_filter distinct_map_filter)
  then show ?thesis by (simp add: strict_sorted_iff)
qed

lemma wf_db_empty: "wf_db empty_db"
  by (simp add: wf_db_def empty_db_def)

lemma wf_db_storeChat: "wf_db d \<Longrightarrow> wf_db (storeChat nc nl cid nm ps msgs raw d)"
  by (simp add: wf_db_def storeChat_def Let_def storeChat_loop_fold
      strict_sorted_store_put strict_sorted_fold_store_put)

lemma wf_db_addBookmark: "wf_db d \<Longrightarrow> wf_db (snd (addBookmark now nc rnd mid cid bn d))"
  by (simp add: wf_db_def addBookmark_def Let_def strict_sorted_store_put)

lemma wf_db_removeBookmark: "wf_db d \<Longrightarrow> wf_db (removeBookmark b d)"
  by (simp add: wf_db_def removeBookmark_def store_delete_def strict_sorted_filter)

lemma wf_db_deleteChat: "wf_db d \<Longrightarrow> wf_db (deleteChat cid d)"
  by (simp add: wf_db_def deleteChat_def Let_def fold_store_delete store_delete_def
      strict_sorted_filter)

subsection \<open>Index reads\<close>

lemma set_index_getAll: "set (index_getAll ikey inrange s) = {v \<in> set s. inrange (ikey v)}"
  by (auto simp: index_getAll_def)

lemma index_getAll_Nil_iff:
  "index_getAll ikey inrange s = [] \<longleftrightarrow> (\<forall>v\<in>set s. \<not> inrange (ikey v))"
proof -
  have "index_getAll ikey inrange s = [] \<longleftrightarrow> set (index_getAll ikey inrange s) = {}"
    by simp
  then show ?thesis unfolding set_index_getAll by auto
qed

lemma index_getAll_const_key:
  "index_getAll ikey (\<lambda>k. k = c) s = filter (\<lambda>v. ikey v = c) s"
proof -
  have "sorted (map ikey (filter (\<lambda>v. ikey v = c) s))"
    by (induction s) (auto simp: )
  then show ?thesis by (simp add: index_getAll_def sort_key_id_if_sorted)
qed

lemma by_chat_index_range:
  "(cid, enat offset) \<le> by_chat_index m \<and> by_chat_index m \<le> (cid, \<infinity>) \<longleftrightarrow>
     chatId m = cid \<and> offset \<le> messageIndex m"
  by (auto simp: by_chat_index_def less_eq_prod_def)

subsection \<open>Deleting a chat\<close>

lemma filter_keys_of:
  assumes "distinct (map key s)"
  shows "filter (\<lambda>x. key x \<notin> key ` {m \<in> set s. P m}) s = filter (\<lambda>x. \<not> P x) s"
proof (rule filter_cong [OF refl])
  fix x assume x: "x \<in> set s"
  from assms have inj: "inj_on key (set s)" by (simp add: distinct_map)
  show "(key x \<notin> key ` {m \<in> set s. P m}) = (\<not> P x)"
  proof
    assume "key x \<notin> key ` {m \<in> set s. P m}"
    with x show "\<not> P x" by blast
  next
    assume np: "\<not> P x"
    show "key x \<notin> key ` {m \<in> set s. P m}"
    proof
      assume "key x \<in> key ` {m \<in> set s. P m}"
      then obtain m where "m \<in> set s" "P m" "key x = key m" by blast
      with inj x have "x = m" by (auto dest: inj_onD)
      with np \<open>P m\<close> show False by simp
    qed
  qed
qed

lemma deleteChat_messages_keys:
  "messages_os (deleteChat cid d) =
     filter (\<lambda>x. msg_id x \<notin> msg_id ` {m \<in> set (messages_os d). chatId m = cid}) (messages_os d)"
  by (simp add: deleteChat_def Let_def fold_store_delete set_index_getAll)

lemma deleteChat_bookmarks_keys:
  "bookmarks_os (deleteChat cid d) =
     filter (\<lambda>x. bm_id x \<notin> bm_id ` {b \<in> set (bookmarks_os d). bm_chatId b = cid}) (bookmarks_os d)"
  by (simp add: deleteChat_def Let_def fold_store_delete set_index_getAll)

lemma deleteChat_chats:
  "chats_os (deleteChat cid d) = filter (\<lambda>c. chat_id c \<noteq> cid) (chats_os d)"
  by (simp add: deleteChat_def Let_def store_delete_def)

lemma deleteChat_no_messages: "getAllMessagesForChat cid (deleteChat cid d) = []"
  by (auto simp: getAllMessagesForChat_def index_getAll_Nil_iff deleteChat_messages_keys)

lemma deleteChat_no_bookmarks: "getBookmarksForChat cid (deleteChat cid d) = []"
  by (auto simp: getBookmarksForChat_def index_getAll_Nil_iff deleteChat_bookmarks_keys)

lemma deleteChat_messages:
  assumes "wf_db d"
  shows "messages_os (deleteChat cid d) = filter (\<lambda>m. chatId m \<noteq> cid) (messages_os d)"
proof -
  from assms have "distinct (map msg_id (messages_os d))"
    by (simp add: wf_db_def strict_sorted_iff)
  then show ?thesis
    unfolding deleteChat_messages_keys by (rule filter_keys_of)
qed

lemma deleteChat_bookmarks:
  assumes "wf_db d"
  shows "bookmarks_os (deleteChat cid d) = filter (\<lambda>b. bm_chatId b \<noteq> cid) (bookmarks_os d)"
proof -
  from assms have "distinct (map bm_id (bookmarks_os d))"
    by (simp add: wf_db_def strict_sorted_iff)
  then show ?thesis
    unfolding deleteChat_bookmarks_keys by (rule filter_keys_of)
qed

lemma find_filter_other:
  "c \<noteq> cid \<Longrightarrow> List.find (\<lambda>x. key x = c) (filter (\<lambda>x. key x \<noteq> cid) s) = List.find (\<lambda>x. key x = c) s"
  by (induction s) auto


text \<open>
  Claim C3. After \<^verbatim>\<open>deleteChat(id)\<close> no message and no bookmark of the chat can be read back:
  \<^verbatim>\<open>getAllMessagesForChat(id)\<close> and \<^verbatim>\<open>getBookmarksForChat(id)\<close> are empty, so is
  \<^verbatim>\<open>getChat(id)\<close>, and neither store holds a record with that \<^verbatim>\<open>chatId\<close> any more. In a
  database whose stores hold one record per key, the records of every other chat are as
  before: each store has lost exactly the records of the chat.
\<close>

theorem deleteChat_cascade:
  "getAllMessagesForChat cid (deleteChat cid d) = [] \<and>
   getBookmarksForChat cid (deleteChat cid d) = [] \<and>
   getChat cid (deleteChat cid d) = None \<and>
   filter (\<lambda>m. chatId m = cid) (messages_os (deleteChat cid d)) = [] \<and>
   filter (\<lambda>b. bm_chatId b = cid) (bookmarks_os (deleteChat cid d)) = [] \<and>
   (wf_db d \<longrightarrow>
      messages_os (deleteChat cid d) = filter (\<lambda>m. chatId m \<noteq> cid) (messages_os d) \<and>
      bookmarks_os (deleteChat cid d) = filter (\<lambda>b. bm_chatId b \<noteq> cid) (bookmarks_os d) \<and>
      chats_os (deleteChat cid d) = filter (\<lambda>c. chat_id c \<noteq> cid) (chats_os d) \<and>
      (\<forall>c. c \<noteq> cid \<longrightarrow>
         getAllMessagesForChat c (deleteChat cid d) = getAllMessagesForChat c d \<and>
         getBookmarksForChat c (deleteChat cid d) = getBookmarksForChat c d \<and>
         getChat c (deleteChat cid d) = getChat c d))"
proof (intro conjI impI allI)
  show "getAllMessagesForChat cid (deleteChat cid d) = []" by (rule deleteChat_no_messages)
  show "getBookmarksForChat cid (deleteChat cid d) = []" by (rule deleteChat_no_bookmarks)
  show "getChat cid (deleteChat cid d) = None"
    by (simp add: getChat_def store_get_def deleteChat_chats find_None_iff)
  show "filter (\<lambda>m. chatId m = cid) (messages_os (deleteChat cid d)) = []"
    by (auto simp: deleteChat_messages_keys filter_empty_conv)
  show "filter (\<lambda>b. bm_chatId b = cid) (bookmarks_os (deleteChat cid d)) = []"
    by (auto simp: deleteChat_bookmarks_keys filter_empty_conv)
next
  assume "wf_db d"
  then show "messages_os (deleteChat cid d) = filter (\<lambda>m. chatId m \<noteq> cid) (messages_os d)"
    by (rule deleteChat_messages)
next
  assume "wf_db d"
  then show "bookmarks_os (deleteChat cid d) = filter (\<lambda>b. bm_chatId b \<noteq> cid) (bookmarks_os d)"
    by (rule deleteChat_bookmarks)
next
  show "chats_os (deleteChat cid d) = filter (\<lambda>c. chat_id c \<noteq> cid) (chats_os d)"
    by (rule deleteChat_chats)
next
  fix c assume wf: "wf_db d" and c: "c \<noteq> cid"
  have "filter (\<lambda>v. chatId v = c) (filter (\<lambda>m. chatId m \<noteq> cid) (messages_os d)) =
        filter (\<lambda>v. chatId v = c) (messages_os d)"
    using c by (auto intro: filter_cong)
  then show "getAllMessagesForChat c (deleteChat cid d) = getAllMessagesForChat c d"
    by (simp add: getAllMessagesForChat_def index_getAll_const_key deleteChat_messages [OF wf])
next
  fix c assume wf: "wf_db d" and c: "c \<noteq> cid"
  have "filter (\<lambda>v. bm_chatId v = c) (filter (\<lambda>m. bm_chatId m \<noteq> cid) (bookmarks_os d)) =
        filter (\<lambda>v. bm_chatId v = c) (bookmarks_os d)"
    using c by (auto intro: filter_cong)
  then show "getBookmarksForChat c (deleteChat cid d) = getBookmarksForChat c d"
    by (simp add: getBookmarksForChat_def index_getAll_const_key deleteChat_bookmarks [OF wf])
next
  fix c assume c: "c \<noteq> cid"
  then show "getChat c (deleteChat cid d) = getChat c d"
    by (simp add: getChat_def store_get_def deleteChat_chats find_filter_other)
qed

text \<open>
  The theorem at a database with a chat \<open>c1\<close> of ten messages and two bookmarks and a
  chat \<open>c2\<close> of two messages and one bookmark: \<open>c1\<close> is gone, \<open>c2\<close> is untouched.
\<close>

lemma wf_db_two_chats: "wf_db db_two_chats"
  unfolding db_two_chats_def
  by (intro wf_db_addBookmark wf_db_storeChat wf_db_empty)

theorem deleteChat_cascade_witness:
  "wf_db db_two_chats \<and>
   length (getAllMessagesForChat (js ''c1'') db_two_chats) = 10 \<and>
   length (getBookmarksForChat (js ''c1'') db_two_chats) = 2 \<and>
   getAllMessagesForChat (js ''c1'') (deleteChat (js ''c1'') db_two_chats) = [] \<and>
   getBookmarksForChat (js ''c1'') (deleteChat (js ''c1'') db_two_chats) = [] \<and>
   getChat (js ''c1'') (deleteChat (js ''c1'') db_two_chats) = None \<and>
   getAllMessagesForChat (js ''c2'') (deleteChat (js ''c1'') db_two_chats) =
     getAllMessagesForChat (js ''c2'') db_two_chats \<and>
   map msg_id (getAllMessagesForChat (js ''c2'') db_two_chats) = [js ''c2-0'', js ''c2-1''] \<and>
   getBookmarksForChat (js ''c2'') (deleteChat (js ''c1'') db_two_chats) =
     getBookmarksForChat (js ''c2'') db_two_chats \<and>
   map bm_id (getBookmarksForChat (js ''c2'') db_two_chats) = [js ''bookmark-43-q1w2e3r4t''] \<and>
   getChat (js ''c2'') (deleteChat (js ''c1'') db_two_chats) = getChat (js ''c2'') db_two_chats"
proof -
  have n: "js ''c2'' \<noteq> js ''c1''" by (simp add: js_def cu_def)
  have 1: "length (getAllMessagesForChat (js ''c1'') db_two_chats) = 10" by code_simp
  have 2: "length (getBookmarksForChat (js ''c1'') db_two_chats) = 2" by code_simp
  have 3: "map msg_id (getAllMessagesForChat (js ''c2'') db_two_chats) = [js ''c2-0'', js ''c2-1'']"
    by code_simp
  have 4: "map bm_id (getBookmarksForChat (js ''c2'') db_two_chats) = [js ''bookmark-43-q1w2e3r4t'']"
    by code_simp
  from deleteChat_cascade [of "js ''c1''" db_two_chats] wf_db_two_chats n
  have "getAllMessagesForChat (js ''c1'') (deleteChat (js ''c1'') db_two_chats) = []"
    and "getBookmarksForChat (js ''c1'') (deleteChat (js ''c1'') db_two_chats) = []"
    and "getChat (js ''c1'') (deleteChat (js ''c1'') db_two_chats) = None"
    and "getAllMessagesForChat (js ''c2'') (deleteChat (js ''c1'') db_two_chats) =
           getAllMessagesForChat (js ''c2'') db_two_chats"
    and "getBookmarksForChat (js ''c2'') (deleteChat (js ''c1'') db_two_chats) =
           getBookmarksForChat (js ''c2'') db_two_chats"
    and "getChat (js ''c2'') (deleteChat (js ''c1'') db_two_chats) = getChat (js ''c2'') db_two_chats"
    by simp_all
  with wf_db_two_chats 1 2 3 4 show ?thesis by (simp only: simp_thms)
qed

subsection \<open>The composite index after an import\<close>

lemma filter_key_singleton:
  assumes "distinct ys" "inj_on f (set ys)" "k \<in> set ys"
  shows "filter (\<lambda>x. f k = f x) ys = [k]"
proof -
  have "filter (\<lambda>x. f k = f x) ys = filter (\<lambda>x. x = k) ys"
    using assms by (intro filter_cong refl) (auto dest: inj_onD)
  also have "\<dots> = [k]"
    using assms(1,3) by (induction ys) (auto simp: filter_empty_conv)
  finally show ?thesis .
qed

lemma sort_key_of_permutation:
  fixes f :: "'a \<Rightarrow> 'k::linorder"
  assumes m: "mset xs = mset ys" and d: "distinct ys" and i: "inj_on f (set ys)"
    and s: "sorted (map f ys)"
  shows "sort_key f xs = ys"
proof (rule properties_for_sort_key)
  show "mset ys = mset xs" using m by simp
  show "sorted (map f ys)" by (rule s)
  fix k assume k: "k \<in> set ys"
  from m have sx: "set xs = set ys" by (rule mset_eq_setD)
  from m d have dx: "distinct xs" by (metis mset_eq_imp_distinct_iff)
  have "filter (\<lambda>x. f k = f x) ys = [k]" using d i k by (rule filter_key_singleton)
  moreover have "filter (\<lambda>x. f k = f x) xs = [k]"
    using dx i k unfolding sx [symmetric] by (rule filter_key_singleton)
  ultimately show "filter (\<lambda>x. f k = f x) ys = filter (\<lambda>x. f k = f x) xs" by simp
qed


lemma length_import_records: "length (import_records cid msgs) = length msgs"
  by (simp add: import_records_def)

lemma map_messageIndex_import_records:
  "map messageIndex (import_records cid msgs) = [0..<length msgs]"
  by (simp add: import_records_def message_record_def map_idI)

lemma chatId_import_records: "m \<in> set (import_records cid msgs) \<Longrightarrow> chatId m = cid"
  by (auto simp: import_records_def message_record_def)

lemma distinct_ids_import_records: "distinct (map msg_id (import_records cid msgs))"
proof -
  have "map msg_id (import_records cid msgs) =
        map (\<lambda>i. cid @ js ''-'' @ string_of_nat i) [0..<length msgs]"
    by (simp add: import_records_def message_record_def)
  moreover have "inj_on (\<lambda>i. cid @ js ''-'' @ string_of_nat i) (set [0..<length msgs])"
    by (rule inj_onI) (simp add: string_of_nat_inj)
  ultimately show ?thesis
    by (simp add: distinct_map)
qed

lemma ids_import_records:
  "msg_id ` set (import_records cid msgs) =
     (\<lambda>i. cid @ js ''-'' @ string_of_nat i) ` {0..<length msgs}"
  by (simp add: import_records_def message_record_def image_image)

lemma storeChat_messages:
  "messages_os (storeChat nc nl cid nm ps msgs raw d) =
     fold (store_put msg_id) (import_records cid msgs) (messages_os d)"
  by (simp add: storeChat_def Let_def storeChat_loop_fold import_records_def)

lemma sorted_keys_import_records: "sorted (map by_chat_index (import_records cid msgs))"
proof -
  have "map by_chat_index (import_records cid msgs) =
        map (\<lambda>i. (cid, enat i)) [0..<length msgs]"
    by (simp add: import_records_def message_record_def by_chat_index_def)
  moreover have "sorted (map (\<lambda>i. (cid, enat i)) [0..<length msgs])"
    by (auto simp: sorted_map sorted_wrt_iff_nth_less less_eq_prod_def)
  ultimately show ?thesis by simp
qed

lemma inj_keys_import_records: "inj_on by_chat_index (set (import_records cid msgs))"
  by (auto simp: inj_on_def import_records_def message_record_def by_chat_index_def)

lemma chat_records_after_storeChat:
  assumes fresh: "\<forall>m\<in>set (messages_os d).
                   chatId m = cid \<longrightarrow> msg_id m \<in> msg_id ` set (import_records cid msgs)"
  shows "mset (filter (\<lambda>v. chatId v = cid) (messages_os (storeChat nc nl cid nm ps msgs raw d))) =
           mset (import_records cid msgs)"
proof -
  let ?recs = "import_records cid msgs"
  let ?s' = "messages_os (storeChat nc nl cid nm ps msgs raw d)"
  have m: "mset ?s' =
      mset ?recs + mset (filter (\<lambda>x. msg_id x \<notin> msg_id ` set ?recs) (messages_os d))"
    unfolding storeChat_messages
    by (rule mset_fold_store_put) (rule distinct_ids_import_records)
  have "filter (\<lambda>v. chatId v = cid) ?recs = ?recs"
    by (simp add: chatId_import_records)
  then have r: "filter_mset (\<lambda>v. chatId v = cid) (mset ?recs) = mset ?recs"
    by (simp only: mset_filter [symmetric])
  have o: "filter_mset (\<lambda>v. chatId v = cid)
             (mset (filter (\<lambda>x. msg_id x \<notin> msg_id ` set ?recs) (messages_os d))) = {#}"
    using fresh by auto
  have "mset (filter (\<lambda>v. chatId v = cid) ?s') = filter_mset (\<lambda>v. chatId v = cid) (mset ?s')"
    by simp
  also have "\<dots> = mset ?recs" unfolding m by (simp only: filter_union_mset r o) simp
  finally show ?thesis .
qed

lemma chat_messages_after_storeChat:
  assumes fresh: "\<forall>m\<in>set (messages_os d).
                   chatId m = cid \<longrightarrow> msg_id m \<in> msg_id ` set (import_records cid msgs)"
  shows "chat_messages cid (storeChat nc nl cid nm ps msgs raw d) = import_records cid msgs"
proof -
  let ?recs = "import_records cid msgs"
  let ?s' = "messages_os (storeChat nc nl cid nm ps msgs raw d)"
  have p: "mset (filter (\<lambda>v. chatId v = cid) ?s') = mset ?recs"
    using fresh by (rule chat_records_after_storeChat)
  have "distinct ?recs"
    using distinct_ids_import_records [of cid msgs] by (simp add: distinct_map)
  with p have "sort_key by_chat_index (filter (\<lambda>v. chatId v = cid) ?s') = ?recs"
    using inj_keys_import_records sorted_keys_import_records
    by (rule sort_key_of_permutation)
  then show ?thesis
    by (simp add: chat_messages_def index_getAll_def by_chat_index_range)
qed

lemma count_messages_after_storeChat:
  assumes fresh: "\<forall>m\<in>set (messages_os d).
                   chatId m = cid \<longrightarrow> msg_id m \<in> msg_id ` set (import_records cid msgs)"
  shows "length (getAllMessagesForChat cid (storeChat nc nl cid nm ps msgs raw d)) = length msgs"
proof -
  have "size (mset (filter (\<lambda>v. chatId v = cid)
            (messages_os (storeChat nc nl cid nm ps msgs raw d)))) =
        size (mset (import_records cid msgs))"
    using chat_records_after_storeChat [OF fresh] by simp
  then show ?thesis
    by (simp only: size_mset getAllMessagesForChat_def index_getAll_const_key
        length_import_records)
qed

lemma find_insort_key:
  "P v \<Longrightarrow> \<forall>x\<in>set xs. \<not> P x \<Longrightarrow> List.find P (insort_key key v xs) = Some v"
  by (induction xs) auto

lemma store_get_store_put: "store_get key (key v) (store_put key v s) = Some v"
  by (simp add: store_get_def store_put_def find_insort_key)

subsection \<open>Paginated reads\<close>

lemma getMessages_loop_take:
  "getMessages_loop cursor limit k k acc = acc @ take (min limit MAX_ITERATIONS - k) cursor"
proof (induction cursor arbitrary: k acc)
  case Nil
  show ?case by simp
next
  case (Cons v cursor)
  show ?case
  proof (cases "k < limit \<and> k < MAX_ITERATIONS")
    case True
    then have "min limit MAX_ITERATIONS - k = Suc (min limit MAX_ITERATIONS - Suc k)"
      by (auto simp: min_def)
    with True Cons.IH [of "Suc k" "acc @ [v]"] show ?thesis by simp
  next
    case False
    then have "min limit MAX_ITERATIONS - k = 0" by auto
    moreover from False
    have "getMessages_loop (v # cursor) limit k k acc = acc" by auto
    ultimately show ?thesis by simp
  qed
qed

lemma filter_ge_dense:
  "map f xs = [a..<b] \<Longrightarrow> filter (\<lambda>x. offset \<le> f x) xs = drop (offset - a) xs"
proof (induction xs arbitrary: a)
  case Nil
  show ?case by simp
next
  case (Cons x xs)
  from Cons.prems have ab: "a < b" by (cases "a < b") auto
  with Cons.prems have fx: "f x = a" and rest: "map f xs = [Suc a..<b]"
    by (simp_all add: upt_conv_Cons)
  have IH: "filter (\<lambda>x. offset \<le> f x) xs = drop (offset - Suc a) xs"
    using rest by (rule Cons.IH)
  show ?case
  proof (cases "offset \<le> a")
    case True
    then have "offset - Suc a = 0" "offset - a = 0" by simp_all
    with IH fx True show ?thesis by simp
  next
    case False
    then have "offset - a = Suc (offset - Suc a)" by simp
    with IH fx False show ?thesis by simp
  qed
qed

lemma index_range_drop:
  assumes "map messageIndex (chat_messages cid d) = [0..<N]"
  shows "index_getAll by_chat_index (\<lambda>k. (cid, enat offset) \<le> k \<and> k \<le> (cid, \<infinity>))
           (messages_os d) = drop offset (chat_messages cid d)"
proof -
  have "index_getAll by_chat_index (\<lambda>k. (cid, enat offset) \<le> k \<and> k \<le> (cid, \<infinity>))
          (messages_os d) =
        sort_key by_chat_index
          (filter (\<lambda>m. chatId m = cid \<and> offset \<le> messageIndex m) (messages_os d))"
    by (simp add: index_getAll_def by_chat_index_range)
  also have "\<dots> = sort_key by_chat_index
          (filter (\<lambda>m. offset \<le> messageIndex m) (filter (\<lambda>m. chatId m = cid) (messages_os d)))"
    by simp
  also have "\<dots> = filter (\<lambda>m. offset \<le> messageIndex m) (chat_messages cid d)"
    by (simp add: filter_sort chat_messages_def index_getAll_def by_chat_index_range)
  also have "\<dots> = drop (offset - 0) (chat_messages cid d)"
    using assms by (rule filter_ge_dense)
  finally show ?thesis by simp
qed

lemma getMessages_dense:
  assumes "map messageIndex (chat_messages cid d) = [0..<N]"
  shows "getMessages cid limit offset d =
           take (min limit MAX_ITERATIONS) (drop offset (chat_messages cid d))"
  by (simp add: getMessages_def index_range_drop [OF assms] getMessages_loop_take)

lemma take_drop_upt: "take n (drop offset [0..<N]) = [offset..<min (offset + n) N]"
  by (rule nth_equalityI) (auto simp: min_def)

text \<open>
  Claim C2, as the code has it. For every chat id and message list of length \<open>N\<close>,
  \<^verbatim>\<open>storeChat\<close> puts one chat record, with \<open>messageCount = N\<close> and \<open>lastMessageAt\<close> the
  timestamp of the last message (the clock reading when the list is empty), and puts
  \<open>N\<close> message records, the one for position \<open>i\<close> with id \<^verbatim>\<open><chatId>-<i>\<close> and
  \<open>messageIndex = i\<close>. When every message of that chat id stored beforehand has one of
  these \<open>N\<close> ids (so when none is stored, as for a new chat), the composite index then
  lists exactly these records for the chat, in input order, with the indexes \<open>0\<close> to
  \<open>N - 1\<close>, and \<open>messageCount\<close> is the number of stored messages of the chat.
\<close>

theorem storeChat_writes:
  "let d' = storeChat nowCreated nowLast cid chatName parts msgs raw d;
       N = length msgs;
       chat = \<lparr>chat_id = cid, name = chatName, participants = parts, createdAt = nowCreated,
               lastMessageAt = (if msgs = [] then nowLast else timestamp (last msgs)),
               messageCount = N, rawContent = raw\<rparr>;
       recs = map (\<lambda>i. \<lparr>timestamp = timestamp (msgs ! i), sender = sender (msgs ! i),
                          content = content (msgs ! i),
                          msg_id = cid @ js ''-'' @ string_of_nat i, chatId = cid,
                          messageIndex = i\<rparr>) [0..<N]
   in chats_os d' = store_put chat_id chat (chats_os d) \<and>
      getChat cid d' = Some chat \<and>
      messages_os d' = fold (store_put msg_id) recs (messages_os d) \<and>
      length recs = N \<and>
      bookmarks_os d' = bookmarks_os d \<and>
      ((\<forall>m\<in>set (messages_os d).
           chatId m = cid \<longrightarrow> msg_id m \<in> (\<lambda>i. cid @ js ''-'' @ string_of_nat i) ` {0..<N}) \<longrightarrow>
         chat_messages cid d' = recs \<and>
         map messageIndex (chat_messages cid d') = [0..<N] \<and>
         length (getAllMessagesForChat cid d') = messageCount chat)"
proof -
  let ?d' = "storeChat nowCreated nowLast cid chatName parts msgs raw d"
  let ?chat = "\<lparr>chat_id = cid, name = chatName, participants = parts, createdAt = nowCreated,
               lastMessageAt = (if msgs = [] then nowLast else timestamp (last msgs)),
               messageCount = length msgs, rawContent = raw\<rparr>"
  have recs: "map (\<lambda>i. \<lparr>timestamp = timestamp (msgs ! i), sender = sender (msgs ! i),
                          content = content (msgs ! i),
                          msg_id = cid @ js ''-'' @ string_of_nat i, chatId = cid,
                          messageIndex = i\<rparr>) [0..<length msgs] = import_records cid msgs"
    by (simp add: import_records_def message_record_def)
  have c: "chats_os ?d' = store_put chat_id ?chat (chats_os d)"
    by (simp add: storeChat_def Let_def last_conv_nth)
  have g: "getChat cid ?d' = Some ?chat"
    unfolding getChat_def c using store_get_store_put [of chat_id ?chat "chats_os d"] by simp
  have m: "messages_os ?d' = fold (store_put msg_id) (import_records cid msgs) (messages_os d)"
    by (rule storeChat_messages)
  have b: "bookmarks_os ?d' = bookmarks_os d"
    by (simp add: storeChat_def Let_def)
  have f: "chat_messages cid ?d' = import_records cid msgs \<and>
           map messageIndex (chat_messages cid ?d') = [0..<length msgs] \<and>
           length (getAllMessagesForChat cid ?d') = length msgs"
    if "\<forall>m\<in>set (messages_os d).
          chatId m = cid \<longrightarrow> msg_id m \<in> (\<lambda>i. cid @ js ''-'' @ string_of_nat i) ` {0..<length msgs}"
  proof -
    from that have "\<forall>m\<in>set (messages_os d).
        chatId m = cid \<longrightarrow> msg_id m \<in> msg_id ` set (import_records cid msgs)"
      by (simp only: ids_import_records)
    then show ?thesis
      by (simp add: chat_messages_after_storeChat count_messages_after_storeChat
          map_messageIndex_import_records)
  qed
  show ?thesis
    unfolding Let_def recs using c g m b f
    by (simp add: length_import_records map_messageIndex_import_records)
qed

text \<open>The theorem at the import of three messages into the empty database.\<close>

theorem storeChat_writes_witness:
  "map messageIndex (chat_messages (js ''c1'') db_three) = [0, 1, 2] \<and>
   map msg_id (chat_messages (js ''c1'') db_three) = [js ''c1-0'', js ''c1-1'', js ''c1-2''] \<and>
   length (getAllMessagesForChat (js ''c1'') db_three) = 3 \<and>
   map_option messageCount (getChat (js ''c1'') db_three) = Some 3 \<and>
   map_option lastMessageAt (getChat (js ''c1'') db_three) = Some 1700000120000"
proof -
  have fresh: "\<forall>m\<in>set (messages_os (empty_db :: int db)).
      chatId m = js ''c1'' \<longrightarrow>
      msg_id m \<in> (\<lambda>i. (js ''c1'') @ js ''-'' @ string_of_nat i) ` {0..<length (map example_message [0..<3])}"
    by (simp add: empty_db_def)
  have e: "map example_message [0..<3] = [example_message 0, example_message 1, example_message 2]"
    by code_simp
  from fresh storeChat_writes [of 1700000300000 1700000300000 "js ''c1''" "js ''Alice & Bob''"
      "[js ''Alice'', js ''Bob'']" "map example_message [0..<3]" "js ''raw''" empty_db]
  have "chat_messages (js ''c1'') db_three =
          map (\<lambda>i. \<lparr>timestamp = timestamp (map example_message [0..<3] ! i),
                     sender = sender (map example_message [0..<3] ! i),
                     content = content (map example_message [0..<3] ! i),
                     msg_id = js ''c1'' @ js ''-'' @ string_of_nat i, chatId = js ''c1'',
                     messageIndex = i\<rparr>) [0..<length (map example_message [0..<3])]"
    and "length (getAllMessagesForChat (js ''c1'') db_three) = length (map example_message [0..<3])"
    and "getChat (js ''c1'') db_three =
      Some \<lparr>chat_id = js ''c1'', name = js ''Alice & Bob'', participants = [js ''Alice'', js ''Bob''],
            createdAt = 1700000300000,
            lastMessageAt = (if map example_message [0..<3] = [] then 1700000300000
                             else timestamp (last (map example_message [0..<3]))),
            messageCount = length (map example_message [0..<3]), rawContent = js ''raw''\<rparr>"
    unfolding db_three_def Let_def by simp_all
  moreover have "map messageIndex (map (\<lambda>i. \<lparr>timestamp = timestamp (map example_message [0..<3] ! i),
                     sender = sender (map example_message [0..<3] ! i),
                     content = content (map example_message [0..<3] ! i),
                     msg_id = js ''c1'' @ js ''-'' @ string_of_nat i, chatId = js ''c1'',
                     messageIndex = i\<rparr>) [0..<length (map example_message [0..<3])]) = [0, 1, 2]"
    by code_simp
  moreover have "map msg_id (map (\<lambda>i. \<lparr>timestamp = timestamp (map example_message [0..<3] ! i),
                     sender = sender (map example_message [0..<3] ! i),
                     content = content (map example_message [0..<3] ! i),
                     msg_id = js ''c1'' @ js ''-'' @ string_of_nat i, chatId = js ''c1'',
                     messageIndex = i\<rparr>) [0..<length (map example_message [0..<3])]) =
                 [js ''c1-0'', js ''c1-1'', js ''c1-2'']"
    by code_simp
  moreover have "length (map example_message [0..<3]) = 3" by simp
  moreover have "timestamp (last (map example_message [0..<3])) = 1700000120000"
    by code_simp
  ultimately show ?thesis by simp
qed

text \<open>
  Without the condition on the database the second half fails: \<^verbatim>\<open>put\<close> replaces and
  inserts but never removes. Storing chat \<open>c1\<close> with three messages and then again with
  one leaves a chat record with \<open>messageCount = 1\<close> and three stored messages of the chat.
\<close>

theorem storeChat_again_leaves_old_messages:
  "map_option messageCount (getChat (js ''c1'') db_stored_twice) = Some 1 \<and>
   map messageIndex (chat_messages (js ''c1'') db_stored_twice) = [0, 1, 2] \<and>
   length (getAllMessagesForChat (js ''c1'') db_stored_twice) = 3"
  by code_simp

subsection \<open>Pages of a chat\<close>

lemma filter_lt_dense:
  "map f xs = [a..<b] \<Longrightarrow> filter (\<lambda>x. f x < hi) xs = take (hi - a) xs"
proof (induction xs arbitrary: a)
  case Nil
  show ?case by simp
next
  case (Cons x xs)
  from Cons.prems have ab: "a < b" by (cases "a < b") auto
  with Cons.prems have fx: "f x = a" and rest: "map f xs = [Suc a..<b]"
    by (simp_all add: upt_conv_Cons)
  have IH: "filter (\<lambda>x. f x < hi) xs = take (hi - Suc a) xs"
    using rest by (rule Cons.IH)
  show ?case
  proof (cases "a < hi")
    case True
    then have "hi - a = Suc (hi - Suc a)" by simp
    with IH fx True show ?thesis by simp
  next
    case False
    then have "hi - a = 0" "hi - Suc a = 0" by simp_all
    with IH fx False show ?thesis by simp
  qed
qed

lemma filter_range_dense:
  assumes "map f xs = [0..<N]"
  shows "filter (\<lambda>x. lo \<le> f x \<and> f x < lo + n) xs = take n (drop lo xs)"
proof -
  have "filter (\<lambda>x. lo \<le> f x \<and> f x < lo + n) xs =
        filter (\<lambda>x. f x < lo + n) (filter (\<lambda>x. lo \<le> f x) xs)"
    by (simp add: conj_commute)
  also have "filter (\<lambda>x. lo \<le> f x) xs = drop (lo - 0) xs"
    using assms by (rule filter_ge_dense)
  also have "filter (\<lambda>x. f x < lo + n) (drop (lo - 0) xs) = take (lo + n - lo) (drop (lo - 0) xs)"
  proof (rule filter_lt_dense)
    show "map f (drop (lo - 0) xs) = [lo..<N]"
      using assms by (simp add: drop_map [symmetric])
  qed
  finally show ?thesis by simp
qed

text \<open>
  Claim C4, as the code has it. For a chat whose messages the composite index lists with
  the indexes \<open>0\<close> to \<open>N - 1\<close>, and for all \<open>limit\<close> and \<open>offset\<close>,
  \<^verbatim>\<open>getMessages(chatId, limit, offset)\<close> returns exactly the messages with index from \<open>offset\<close>
  up to, not including, the least of \<open>offset + limit\<close>, \<open>offset + 10000\<close> and \<open>N\<close>, in
  increasing index order: the loop stops after \<open>10000\<close> iterations whatever the limit.
  For a limit of at most \<open>10000\<close> these are the indexes from \<open>offset\<close> to
  \<open>min (offset + limit) N\<close>.
\<close>

theorem getMessages_page:
  assumes "map messageIndex (chat_messages cid d) = [0..<N]"
  shows "getMessages cid limit offset d =
           filter (\<lambda>m. offset \<le> messageIndex m \<and>
                        messageIndex m < offset + min limit MAX_ITERATIONS)
             (chat_messages cid d) \<and>
         getMessages cid limit offset d =
           take (min limit MAX_ITERATIONS) (drop offset (chat_messages cid d)) \<and>
         map messageIndex (getMessages cid limit offset d) =
           [offset..<min (offset + min limit MAX_ITERATIONS) N] \<and>
         MAX_ITERATIONS = 10000 \<and>
         (limit \<le> 10000 \<longrightarrow>
            map messageIndex (getMessages cid limit offset d) = [offset..<min (offset + limit) N])"
proof -
  have g: "getMessages cid limit offset d =
           take (min limit MAX_ITERATIONS) (drop offset (chat_messages cid d))"
    using assms by (rule getMessages_dense)
  have f: "getMessages cid limit offset d =
           filter (\<lambda>m. offset \<le> messageIndex m \<and>
                        messageIndex m < offset + min limit MAX_ITERATIONS)
             (chat_messages cid d)"
    unfolding g using assms by (rule filter_range_dense [symmetric])
  have "map messageIndex (getMessages cid limit offset d) =
        take (min limit MAX_ITERATIONS) (drop offset (map messageIndex (chat_messages cid d)))"
    unfolding g by (simp add: take_map drop_map)
  then have m: "map messageIndex (getMessages cid limit offset d) =
           [offset..<min (offset + min limit MAX_ITERATIONS) N]"
    unfolding assms by (simp only: take_drop_upt)
  have "map messageIndex (getMessages cid limit offset d) = [offset..<min (offset + limit) N]"
    if "limit \<le> 10000"
  proof -
    from that have "min limit MAX_ITERATIONS = limit" by (simp add: MAX_ITERATIONS_def)
    with m show ?thesis by simp
  qed
  moreover have "MAX_ITERATIONS = 10000" by (simp add: MAX_ITERATIONS_def)
  ultimately show ?thesis using f g m by blast
qed

text \<open>
  The theorem after \<^verbatim>\<open>storeChat\<close> with three messages: \<^verbatim>\<open>getMessages(chatId, 2, 1)\<close> returns
  exactly the messages at index \<open>1\<close> and \<open>2\<close>.
\<close>

theorem getMessages_page_witness:
  "map messageIndex (chat_messages (js ''c1'') db_three) = [0..<3] \<and>
   map messageIndex (getMessages (js ''c1'') 2 1 db_three) = [1, 2] \<and>
   getMessages (js ''c1'') 2 1 db_three =
     [\<lparr>timestamp = 1700000060000, sender = js ''Bob'', content = js ''message 1'',
       msg_id = js ''c1-1'', chatId = js ''c1'', messageIndex = 1\<rparr>,
      \<lparr>timestamp = 1700000120000, sender = js ''Alice'', content = js ''message 2'',
       msg_id = js ''c1-2'', chatId = js ''c1'', messageIndex = 2\<rparr>]"
proof -
  have fresh: "\<forall>m\<in>set (messages_os (empty_db :: int db)).
      chatId m = js ''c1'' \<longrightarrow>
      msg_id m \<in> msg_id ` set (import_records (js ''c1'') (map example_message [0..<3]))"
    by (simp add: empty_db_def)
  have cm: "chat_messages (js ''c1'') db_three = import_records (js ''c1'') (map example_message [0..<3])"
    unfolding db_three_def using fresh by (rule chat_messages_after_storeChat)
  have dense: "map messageIndex (chat_messages (js ''c1'') db_three) = [0..<3]"
    unfolding cm by (simp add: map_messageIndex_import_records)
  note page = getMessages_page [OF dense, of 2 1]
  have mi: "min 2 MAX_ITERATIONS = 2" by (simp add: MAX_ITERATIONS_def)
  from page have "getMessages (js ''c1'') 2 1 db_three =
      take (min 2 MAX_ITERATIONS) (drop 1 (chat_messages (js ''c1'') db_three))"
    by (rule conjunct1 [OF conjunct2])
  then have g: "getMessages (js ''c1'') 2 1 db_three =
      take 2 (drop 1 (import_records (js ''c1'') (map example_message [0..<3])))"
    by (simp only: mi cm)
  have "take 2 (drop 1 (import_records (js ''c1'') (map example_message [0..<3]))) =
     [\<lparr>timestamp = 1700000060000, sender = js ''Bob'', content = js ''message 1'',
       msg_id = js ''c1-1'', chatId = js ''c1'', messageIndex = 1\<rparr>,
      \<lparr>timestamp = 1700000120000, sender = js ''Alice'', content = js ''message 2'',
       msg_id = js ''c1-2'', chatId = js ''c1'', messageIndex = 2\<rparr>]"
    by code_simp
  with g have v: "getMessages (js ''c1'') 2 1 db_three =
     [\<lparr>timestamp = 1700000060000, sender = js ''Bob'', content = js ''message 1'',
       msg_id = js ''c1-1'', chatId = js ''c1'', messageIndex = 1\<rparr>,
      \<lparr>timestamp = 1700000120000, sender = js ''Alice'', content = js ''message 2'',
       msg_id = js ''c1-2'', chatId = js ''c1'', messageIndex = 2\<rparr>]"
    by (rule trans)
  then have "map messageIndex (getMessages (js ''c1'') 2 1 db_three) = [1, 2]" by simp
  with dense v show ?thesis by (simp only: simp_thms)
qed

text \<open>
  With \<open>10001\<close> messages stored, \<^verbatim>\<open>getMessages(chatId, 10001, 0)\<close> returns \<open>10000\<close> of them,
  not the \<open>10001\<close> with index in \<open>[0, min (0 + 10001) 10001)\<close>.
\<close>

theorem getMessages_iteration_ceiling:
  "length (getMessages (js ''c1'') 10001 0
     (storeChat 0 0 (js ''c1'') (js ''n'') []
        (replicate 10001 \<lparr>timestamp = 0::int, sender = js ''A'', content = js ''x''\<rparr>) (js ''raw'')
        empty_db)) = 10000"
proof -
  let ?msgs = "replicate 10001 \<lparr>timestamp = 0::int, sender = js ''A'', content = js ''x''\<rparr>"
  let ?d = "storeChat 0 0 (js ''c1'') (js ''n'') [] ?msgs (js ''raw'') (empty_db :: int db)"
  have fresh: "\<forall>m\<in>set (messages_os (empty_db :: int db)).
      chatId m = js ''c1'' \<longrightarrow> msg_id m \<in> msg_id ` set (import_records (js ''c1'') ?msgs)"
    by (simp add: empty_db_def)
  have cm: "chat_messages (js ''c1'') ?d = import_records (js ''c1'') ?msgs"
    using fresh by (rule chat_messages_after_storeChat)
  have dense: "map messageIndex (chat_messages (js ''c1'') ?d) = [0..<length ?msgs]"
    unfolding cm by (rule map_messageIndex_import_records)
  have "getMessages (js ''c1'') 10001 0 ?d =
          take (min 10001 MAX_ITERATIONS) (drop 0 (chat_messages (js ''c1'') ?d))"
    using dense by (rule getMessages_dense)
  then have "length (getMessages (js ''c1'') 10001 0 ?d) =
          min (length (import_records (js ''c1'') ?msgs)) (min 10001 MAX_ITERATIONS)"
    unfolding cm by (simp only: length_take length_drop drop_0)
  also have "\<dots> = min 10001 (min 10001 10000)"
    by (simp only: length_import_records length_replicate MAX_ITERATIONS_def)
  also have "\<dots> = (10000::nat)" by simp
  finally show ?thesis .
qed

section \<open>The store service\<close>

text \<open>
  Claim C10. For a chat with no stored message, \<^verbatim>\<open>getChatStats\<close> resolves, given that the
  storage read does, with a message count of \<open>0\<close>, no participant, an average of \<open>0\<close>
  messages per day and the date range from the current time to the epoch; its start is
  after its end whenever the clock reads a time after the epoch.
\<close>

theorem getChatStats_no_messages:
  assumes "\<forall>m\<in>set (messages_os d). chatId m \<noteq> cid"
  shows "\<exists>stats.
           getChatStats now (\<lambda>c. Inr (getAllMessagesForChat c d)) cid = Inr stats \<and>
           cs_messageCount stats = 0 \<and>
           cs_participantStats stats = Map.empty \<and>
           cs_averageMessagesPerDay stats = 0 \<and>
           cs_dateRange stats = (now, 0) \<and>
           (0 < now \<longrightarrow> snd (cs_dateRange stats) < fst (cs_dateRange stats))"
proof -
  from assms have "getAllMessagesForChat cid d = []"
    by (simp add: getAllMessagesForChat_def index_getAll_Nil_iff)
  then show ?thesis by (simp add: getChatStats_def)
qed

text \<open>The theorem at a chat id of which the database holds no message.\<close>

theorem getChatStats_no_messages_witness:
  "getAllMessagesForChat (js ''c9'') db_three = [] \<and>
   getChatStats 1700000600000 (\<lambda>c. Inr (getAllMessagesForChat c db_three)) (js ''c9'') =
     Inr \<lparr>cs_messageCount = 0, cs_participantStats = Map.empty,
          cs_dateRange = (1700000600000, 0), cs_averageMessagesPerDay = 0\<rparr>"
proof -
  have "list_all (\<lambda>m. chatId m \<noteq> js ''c9'') (messages_os db_three)" by code_simp
  then have f: "\<forall>m\<in>set (messages_os db_three). chatId m \<noteq> js ''c9''"
    by (simp only: list_all_iff)
  then have e: "getAllMessagesForChat (js ''c9'') db_three = []"
    by (simp add: getAllMessagesForChat_def index_getAll_Nil_iff)
  from getChatStats_no_messages [OF f, of 1700000600000]
  obtain stats where
    "getChatStats 1700000600000 (\<lambda>c. Inr (getAllMessagesForChat c db_three)) (js ''c9'') = Inr stats \<and>
     cs_messageCount stats = 0 \<and> cs_participantStats stats = Map.empty \<and>
     cs_averageMessagesPerDay stats = 0 \<and> cs_dateRange stats = (1700000600000, 0) \<and>
     (0 < (1700000600000::int) \<longrightarrow> snd (cs_dateRange stats) < fst (cs_dateRange stats))" ..
  then have "getChatStats 1700000600000 (\<lambda>c. Inr (getAllMessagesForChat c db_three)) (js ''c9'') =
     Inr \<lparr>cs_messageCount = 0, cs_participantStats = Map.empty,
          cs_dateRange = (1700000600000, 0), cs_averageMessagesPerDay = 0\<rparr>"
    by (cases stats) simp
  with e show ?thesis by simp
qed

lemma loadMessages_always_resolves: "fst (loadMessages fetch cid forceRefresh st) = Inr ()"
  by (simp add: loadMessages_def Let_def split: option.splits)

lemma switchToChat_always_resolves: "fst (switchToChat fetch cid st) = Inr ()"
  by (simp add: switchToChat_def loadMessages_always_resolves)

lemma switchToChat_sets_pointer:
  "currentChatId (appState (snd (switchToChat fetch cid st))) = Some cid"
  by (simp add: switchToChat_def loadMessages_def Let_def split: option.splits sum.splits)

text \<open>
  Claim C7 at a failing input: chat \<open>c1\<close> has a cached list, a forced refresh is asked
  for, and the storage read times out. \<^verbatim>\<open>loadMessages\<close> of \<^verbatim>\<open>stores.ts\<close> evicts the cache
  entry, as claimed, but its \<^verbatim>\<open>catch\<close> block does not rethrow: the promise resolves.
\<close>

theorem loadMessages_swallows_failure:
  "messageCache service_stale (js ''c1'') \<noteq> None \<and>
   fst (loadMessages fetch_timeout (js ''c1'') True service_stale) = Inr () \<and>
   messageCache (snd (loadMessages fetch_timeout (js ''c1'') True service_stale)) (js ''c1'') = None"
  by (simp add: loadMessages_def service_stale_def initial_service_def fetch_timeout_def)

text \<open>
  Claim C8 at a failing input. \<^verbatim>\<open>switchToChat("c1")\<close> of \<^verbatim>\<open>stores.ts\<close> whose load times
  out resolves and leaves the active-chat pointer at \<open>c1\<close>, with no message loaded. In
  that state \<open>c1\<close> is the active chat and nothing is loading, yet a second
  \<^verbatim>\<open>switchToChat("c1")\<close> is not a no-op: it reads the storage and replaces the messages.
\<close>

theorem switchToChat_no_guard_no_rollback:
  "fst (switchToChat fetch_timeout (js ''c1'') initial_service) = Inr () \<and>
   currentChatId (appState service_after_failed_switch) = Some (js ''c1'') \<and>
   \<not> isLoading (appState service_after_failed_switch) \<and>
   loadingStates service_after_failed_switch = {} \<and>
   messages_w service_after_failed_switch = [] \<and>
   messages_w (snd (switchToChat fetch_one (js ''c1'') service_after_failed_switch)) =
     [message_record (js ''c1'') 0 (example_message 0)] \<and>
   snd (switchToChat fetch_one (js ''c1'') service_after_failed_switch) \<noteq> service_after_failed_switch"
proof -
  have a: "messages_w service_after_failed_switch = []"
    by (simp add: service_after_failed_switch_def switchToChat_def loadMessages_def
        initial_service_def fetch_timeout_def)
  have b: "messages_w (snd (switchToChat fetch_one (js ''c1'') service_after_failed_switch)) =
     [message_record (js ''c1'') 0 (example_message 0)]"
    by (simp add: service_after_failed_switch_def switchToChat_def loadMessages_def
        initial_service_def fetch_timeout_def fetch_one_def)
  from a b have "snd (switchToChat fetch_one (js ''c1'') service_after_failed_switch) \<noteq>
      service_after_failed_switch"
    by (metis list.distinct(1))
  moreover have "fst (switchToChat fetch_timeout (js ''c1'') initial_service) = Inr ()"
    by (rule switchToChat_always_resolves)
  moreover have "currentChatId (appState service_after_failed_switch) = Some (js ''c1'')"
    unfolding service_after_failed_switch_def by (rule switchToChat_sets_pointer)
  moreover have "\<not> isLoading (appState service_after_failed_switch) \<and>
      loadingStates service_after_failed_switch = {}"
    by (simp add: service_after_failed_switch_def switchToChat_def loadMessages_def
        initial_service_def fetch_timeout_def)
  ultimately show ?thesis using a b by (simp only: simp_thms)
qed

subsection \<open>The version with the circuit breaker does both\<close>

lemma isCircuitBreakerOpen_closed:
  "circuitBreaker st operation = None \<Longrightarrow> isCircuitBreakerOpen now operation st = (False, st)"
  by (simp add: isCircuitBreakerOpen_def)

lemma loadMessages_cb_rejects:
  assumes "fetch cid = Inl e"
    and "circuitBreaker st (js ''loadMessages-'' @ cid) = None"
    and "cid \<notin> loadingStates st"
    and "forceRefresh \<or> messageCache st cid = None"
  shows "fst (loadMessages_cb fetch now1 now2 cid forceRefresh st) = Inl e \<and>
         messageCache (snd (loadMessages_cb fetch now1 now2 cid forceRefresh st)) cid = None"
  using assms
  by (auto simp: loadMessages_cb_def Let_def isCircuitBreakerOpen_closed recordFailure_def)

lemma switchToChat_cb_noop:
  "currentChatId (appState st) = Some cid \<Longrightarrow> \<not> isLoading (appState st) \<Longrightarrow>
   switchToChat_cb fetch now1 now2 cid st = (Inr (), st)"
  by (simp add: switchToChat_cb_def)

lemma switchToChat_cb_rolls_back:
  assumes "fst (loadMessages_cb fetch now1 now2 cid False
             (st\<lparr>loadingStates := insert (js ''switchToChat-'' @ cid) (loadingStates st),
                 appState := (appState st)\<lparr>currentChatId := Some cid\<rparr>\<rparr>)) = Inl e"
    and "\<not> (currentChatId (appState st) = Some cid \<and> \<not> isLoading (appState st))"
    and "js ''switchToChat-'' @ cid \<notin> loadingStates st"
  shows "fst (switchToChat_cb fetch now1 now2 cid st) = Inl e \<and>
         currentChatId (appState (snd (switchToChat_cb fetch now1 now2 cid st))) = None"
proof -
  obtain r st3 where l: "loadMessages_cb fetch now1 now2 cid False
             (st\<lparr>loadingStates := insert (js ''switchToChat-'' @ cid) (loadingStates st),
                 appState := (appState st)\<lparr>currentChatId := Some cid\<rparr>\<rparr>) = (r, st3)"
    by (cases "loadMessages_cb fetch now1 now2 cid False
             (st\<lparr>loadingStates := insert (js ''switchToChat-'' @ cid) (loadingStates st),
                 appState := (appState st)\<lparr>currentChatId := Some cid\<rparr>\<rparr>)")
  with assms(1) have r: "r = Inl e" by simp
  show ?thesis
    using assms(2,3) l r by (auto simp: switchToChat_cb_def Let_def js_def)
qed

lemma service_cb_timeout_example:
  "fst (loadMessages_cb fetch_timeout 1000 1001 (js ''c1'') False initial_service_cb) =
     Inl (Error (js ''Message loading timed out'')) \<and>
   fst (switchToChat_cb fetch_timeout 1000 1001 (js ''c1'') initial_service_cb) =
     Inl (Error (js ''Message loading timed out'')) \<and>
   currentChatId (appState (snd (switchToChat_cb fetch_timeout 1000 1001 (js ''c1'') initial_service_cb))) =
     None"
  by (simp add: switchToChat_cb_def loadMessages_cb_def isCircuitBreakerOpen_def
      recordFailure_def initial_service_cb_def fetch_timeout_def Let_def js_def)

end
